theory Spec2Isabelle
  imports Main
begin

section \<open>Values exchanged with the ledger node\<close>

text \<open>
  The engine lives in \<^verbatim>\<open>src/upload/transactions.ts\<close>. It is asynchronous code: every
  answer of the ledger node, every timer and every callback of the wallet is a decision
  of the environment. The model makes each of these decisions an explicit input, so that
  every function below is a total, executable function of the environment's behaviour.

  A transaction error delivered by the node (\<^verbatim>\<open>err\<close> of a status or of a simulation)
  is \<^verbatim>\<open>null\<close> or a non-empty string or object; the model keeps a non-null error as
  the text \<^verbatim>\<open>JSON.stringify\<close> gives for it, and \<^verbatim>\<open>null\<close> as \<open>None\<close>. Every
  non-null error is truthy.
\<close>

type_synonym pubkey = string
type_synonym blockhash = string
type_synonym tx_err = string

record signature_status =
  slot :: nat
  confirmations :: "nat option"
  err :: "tx_err option"

text \<open>
  What the code throws or rejects with: the object \<^verbatim>\<open>{ timeout: true }\<close>, a status
  object, the raw \<^verbatim>\<open>status.err\<close>, or an \<^verbatim>\<open>Error\<close> with a message (also what a
  failing call of the node or of the wallet throws).
\<close>

datatype thrown = TimeoutObj | StatusObj signature_status | ErrValue tx_err | Error string

text \<open>The state of a promise; \<open>Pending\<close> at the end of a run means it never settles.\<close>

datatype 'a promise = Pending | Rejected thrown | Fulfilled 'a

text \<open>The test \<^verbatim>\<open>err.timeout\<close> of the catch block: only \<^verbatim>\<open>{ timeout: true }\<close> has the property.\<close>

fun has_timeout :: "thrown \<Rightarrow> bool" where
  "has_timeout TimeoutObj = True"
| "has_timeout _ = False"

section \<open>The confirmation tracker\<close>

text \<open>
  \<^verbatim>\<open>awaitTransactionSignatureConfirmation\<close> creates one promise and three tasks that
  may settle it: the timer of \<^verbatim>\<open>setTimeout\<close>, the listener handed to
  \<^verbatim>\<open>onSignature\<close>, and the poll loop. The tasks run when the environment delivers an
  event; the order of the events is the environment's choice (the value of
  \<^verbatim>\<open>timeout\<close> decides only where in that order the timer fires). The transaction id
  and the commitment level are handed on to the connection and read nowhere else.

  What the tracker asks of the connection is recorded, in order, as a list of calls.
\<close>

datatype conn_call = OnSignature | GetSignatureStatuses | RemoveSignatureListener nat

datatype poll_reply = PollThrows | PollStatus "signature_status option"

datatype event =
    Timer
  | Notify "tx_err option" nat
  | PollReply poll_reply
  | PollWake

record tracker =
  doneFlag :: bool
  settled :: "signature_status option promise"
  subId :: nat
  subscribed :: bool
  timerArmed :: bool
  pollsInFlight :: nat
  pollLoop :: bool
  returned :: bool
  calls :: "conn_call list"

text \<open>\<^verbatim>\<open>resolve\<close> and \<^verbatim>\<open>reject\<close> of a promise: the first call settles it, later calls do nothing.\<close>

definition resolve :: "signature_status option \<Rightarrow> tracker \<Rightarrow> tracker" where
  "resolve v t = (if settled t = Pending then t\<lparr>settled := Fulfilled v\<rparr> else t)"

definition reject :: "thrown \<Rightarrow> tracker \<Rightarrow> tracker" where
  "reject r t = (if settled t = Pending then t\<lparr>settled := Rejected r\<rparr> else t)"

text \<open>
  One test of \<^verbatim>\<open>while (!done && queryStatus)\<close>: either a status query is issued and
  the loop sleeps, or the loop ends.
\<close>

definition poll_loop :: "bool \<Rightarrow> tracker \<Rightarrow> tracker" where
  "poll_loop queryStatus t =
     (if \<not> doneFlag t \<and> queryStatus
      then t\<lparr>pollsInFlight := Suc (pollsInFlight t), pollLoop := True,
             calls := calls t @ [GetSignatureStatuses]\<rparr>
      else t\<lparr>pollLoop := False\<rparr>)"

text \<open>
  The synchronous part of the promise's executor: arm the timer, subscribe, enter the
  poll loop. \<^verbatim>\<open>onSignature\<close> returns a subscription id (\<open>Some i\<close>) or throws
  (\<open>None\<close>); the catch block then sets \<^verbatim>\<open>done\<close>, and \<^verbatim>\<open>subId\<close> keeps its initial 0.
\<close>

definition executor :: "nat option \<Rightarrow> bool \<Rightarrow> tracker" where
  "executor onSignatureResult queryStatus =
     (let t0 = \<lparr>doneFlag = False, settled = Pending, subId = 0, subscribed = False,
                timerArmed = True, pollsInFlight = 0, pollLoop = False,
                returned = False, calls = [OnSignature]\<rparr>;
          t1 = (case onSignatureResult of
                  None \<Rightarrow> t0\<lparr>doneFlag := True\<rparr>
                | Some i \<Rightarrow> t0\<lparr>subId := i, subscribed := True\<rparr>)
      in poll_loop queryStatus t1)"

text \<open>The continuation of one status query, lines 223 to 238.\<close>

definition on_status :: "signature_status option \<Rightarrow> tracker \<Rightarrow> tracker" where
  "on_status st t =
     (if doneFlag t then t
      else case st of
             None \<Rightarrow> t
           | Some s \<Rightarrow>
               (case err s of
                  Some e \<Rightarrow> reject (ErrValue e) (t\<lparr>doneFlag := True\<rparr>)
                | None \<Rightarrow>
                    (if confirmations s = None \<or> confirmations s = Some 0 then t
                     else resolve (Some s) (t\<lparr>doneFlag := True\<rparr>))))"

text \<open>
  An event runs the task it belongs to. An event whose task does not exist (a
  notification while the connection holds no listener of this call, a reply with no query
  in flight, a second firing of the timer, a wake-up of a loop that ended) changes
  nothing.
\<close>

fun handle :: "bool \<Rightarrow> event \<Rightarrow> tracker \<Rightarrow> tracker" where
  "handle queryStatus Timer t =
     (if \<not> timerArmed t then t
      else if doneFlag t then t\<lparr>timerArmed := False\<rparr>
      else reject TimeoutObj (t\<lparr>timerArmed := False, doneFlag := True\<rparr>))"
| "handle queryStatus (Notify e s) t =
     (if \<not> subscribed t then t
      else (let status = \<lparr>slot = s, confirmations = Some 0, err = e\<rparr>;
                t' = t\<lparr>doneFlag := True\<rparr>
            in if e \<noteq> None then reject (StatusObj status) t'
               else resolve (Some status) t'))"
| "handle queryStatus (PollReply r) t =
     (if pollsInFlight t = 0 then t
      else (let t' = t\<lparr>pollsInFlight := pollsInFlight t - 1\<rparr>
            in case r of PollThrows \<Rightarrow> t' | PollStatus st \<Rightarrow> on_status st t'))"
| "handle queryStatus PollWake t =
     (if pollLoop t then poll_loop queryStatus t else t)"

text \<open>
  The code after \<^verbatim>\<open>await new Promise(...)\<close>, lines 251 to 254. It runs once, when the
  promise is fulfilled, and removes the listener. A rejected promise makes the
  \<^verbatim>\<open>await\<close> throw: the function is left without reaching these lines.
\<close>

definition continuation :: "tracker \<Rightarrow> tracker" where
  "continuation t =
     (if returned t then t
      else case settled t of
             Pending \<Rightarrow> t
           | Rejected r \<Rightarrow> t\<lparr>returned := True\<rparr>
           | Fulfilled v \<Rightarrow>
               t\<lparr>calls := calls t @ [RemoveSignatureListener (subId t)],
                 subscribed := False, doneFlag := True, returned := True\<rparr>)"

definition step :: "bool \<Rightarrow> tracker \<Rightarrow> event \<Rightarrow> tracker" where
  "step queryStatus t e = continuation (handle queryStatus e t)"

definition track :: "nat option \<Rightarrow> bool \<Rightarrow> event list \<Rightarrow> tracker" where
  "track onSignatureResult queryStatus events =
     foldl (step queryStatus) (executor onSignatureResult queryStatus) events"

text \<open>
  The call's result is the state of its promise after all events: fulfilled with the
  status, rejected with what was thrown, or \<open>Pending\<close> when the call never returns.
  With it come the calls made on the connection.
\<close>

definition awaitTransactionSignatureConfirmation ::
  "nat option \<Rightarrow> bool \<Rightarrow> event list \<Rightarrow> signature_status option promise \<times> conn_call list" where
  "awaitTransactionSignatureConfirmation onSignatureResult queryStatus events =
     (let t = track onSignatureResult queryStatus events in (settled t, calls t))"

text \<open>How often a listener was registered and how often one was removed.\<close>

definition registered :: "conn_call list \<Rightarrow> nat" where
  "registered cs = length (filter (\<lambda>c. c = OnSignature) cs)"

fun is_removal :: "conn_call \<Rightarrow> bool" where
  "is_removal (RemoveSignatureListener i) = True"
| "is_removal _ = False"

definition unregistered :: "conn_call list \<Rightarrow> nat" where
  "unregistered cs = length (filter is_removal cs)"

section \<open>The simulator\<close>

record simulated_response =
  simErr :: "tx_err option"
  logs :: "string list option"

text \<open>The node's answer to the \<^verbatim>\<open>simulateTransaction\<close> request: \<^verbatim>\<open>res.error\<close> with its message, or \<^verbatim>\<open>res.result\<close>.\<close>

datatype rpc_response = RpcError string | RpcResult simulated_response

record simulator_env =
  latestBlockhash :: "thrown + blockhash"
  rpcRequest :: "thrown + rpc_response"

text \<open>
  \<^verbatim>\<open>simulateTransaction\<close> followed by \<^verbatim>\<open>.value\<close>: the blockhash is fetched, the request is
  sent, an error answer is thrown as an \<^verbatim>\<open>Error\<close>.
\<close>

definition simulateTransaction :: "simulator_env \<Rightarrow> thrown + simulated_response" where
  "simulateTransaction env =
     (case latestBlockhash env of
        Inl e \<Rightarrow> Inl e
      | Inr b \<Rightarrow>
          (case rpcRequest env of
             Inl e \<Rightarrow> Inl e
           | Inr (RpcError m) \<Rightarrow> Inl (Error (''failed to simulate transaction: '' @ m))
           | Inr (RpcResult v) \<Rightarrow> Inr v))"

definition startsWith :: "string \<Rightarrow> string \<Rightarrow> bool" where
  "startsWith line p = (take (length p) line = p)"

text \<open>
  The loop of lines 116 to 121, \<^verbatim>\<open>for (let i = logs.length - 1; i >= 0; --i)\<close>: the
  second argument is \<open>i + 1\<close>, so \<open>0\<close> is the loop's end. It gives the message of the
  \<^verbatim>\<open>Error\<close> thrown inside the loop, or \<open>None\<close> when the loop ends without throwing.
\<close>

fun scan_logs :: "string list \<Rightarrow> nat \<Rightarrow> string option" where
  "scan_logs ls 0 = None"
| "scan_logs ls (Suc i) =
     (if startsWith (ls ! i) ''Program log: ''
      then Some (''Transaction failed: '' @ drop (length ''Program log: '') (ls ! i))
      else scan_logs ls i)"

text \<open>Lines 115 to 123: what is thrown when the simulated result carries the error \<open>e\<close>.\<close>

definition simulation_error :: "simulated_response \<Rightarrow> tx_err \<Rightarrow> thrown" where
  "simulation_error sim e =
     (case logs sim of
        None \<Rightarrow> Error e
      | Some ls \<Rightarrow> (case scan_logs ls (length ls) of None \<Rightarrow> Error e | Some m \<Rightarrow> Error m))"

section \<open>The submitter\<close>

text \<open>
  The \<^verbatim>\<open>txid\<close> of a result is typed as a string; the last line of the catch block
  assigns it \<^verbatim>\<open>simulateResult?.err\<close>, which is \<^verbatim>\<open>undefined\<close> or \<^verbatim>\<open>null\<close> there.
\<close>

datatype js_txid = Txid string | Undefined | Null

record send_result =
  txid :: js_txid
  txSlot :: nat

text \<open>
  The environment of one call of \<^verbatim>\<open>sendSignedTransaction\<close>: whether
  \<^verbatim>\<open>serialize\<close> throws, the answer to the first \<^verbatim>\<open>sendRawTransaction\<close>, what
  \<^verbatim>\<open>onSignature\<close> returns, the events of the tracker, the simulator's answers, and
  the wake-ups of the resend loop. A wake-up carries the outcome of the loop's clock test
  \<^verbatim>\<open>getUnixTs() - startTime < timeout\<close>; the wake-ups are given for the three
  stretches of the call: while the tracker runs, while the simulator runs, and after the
  \<^verbatim>\<open>finally\<close> block.
\<close>

record submit_env =
  serializeThrows :: "thrown option"
  firstSend :: "thrown + string"
  onSignatureResult :: "nat option"
  events :: "event list"
  simulator :: simulator_env
  startInTime :: bool
  wakesTracking :: "bool list"
  wakesSimulating :: "bool list"
  wakesAfter :: "bool list"

record submitter =
  sends :: nat
  sendDone :: bool
  resendLoop :: bool
  simulations :: nat

text \<open>
  One test of \<^verbatim>\<open>while (!done && getUnixTs() - startTime < timeout)\<close>: the transaction
  is sent again and the loop sleeps, or the loop ends.
\<close>

definition resend :: "submitter \<Rightarrow> bool \<Rightarrow> submitter" where
  "resend s inTime =
     (if \<not> resendLoop s then s
      else if \<not> sendDone s \<and> inTime then s\<lparr>sends := Suc (sends s)\<rparr>
      else s\<lparr>resendLoop := False\<rparr>)"

text \<open>The try block, lines 94 to 101, once the tracker's call has returned \<open>confirmation\<close>.\<close>

definition try_block :: "signature_status option \<Rightarrow> thrown + nat" where
  "try_block confirmation =
     (case confirmation of
        None \<Rightarrow> Inl (Error ''Timed out awaiting confirmation on transaction'')
      | Some c \<Rightarrow>
          (if err c \<noteq> None then Inl (Error ''Transaction failed: Custom instruction error'')
           else Inr (slot c)))"

text \<open>
  The catch block, lines 102 to 127, for the caught value \<open>e\<close>. When it ends without
  throwing, the function returns \<^verbatim>\<open>{ txid, slot }\<close> with the \<^verbatim>\<open>txid\<close> overwritten by
  line 126 and \<^verbatim>\<open>slot\<close> still 0.
\<close>

definition catch_block :: "submit_env \<Rightarrow> thrown \<Rightarrow> submitter \<Rightarrow> send_result promise \<times> submitter" where
  "catch_block env e s =
     (if has_timeout e
      then (Rejected (Error ''Timed out awaiting confirmation on transaction''), s)
      else (let s' = foldl resend (s\<lparr>simulations := Suc (simulations s)\<rparr>) (wakesSimulating env);
                simulateResult = (case simulateTransaction (simulator env) of
                                    Inl x \<Rightarrow> None
                                  | Inr v \<Rightarrow> Some v)
            in case simulateResult of
                 None \<Rightarrow> (Fulfilled \<lparr>txid = Undefined, txSlot = 0\<rparr>, s')
               | Some sim \<Rightarrow>
                   (case simErr sim of
                      None \<Rightarrow> (Fulfilled \<lparr>txid = Null, txSlot = 0\<rparr>, s')
                    | Some x \<Rightarrow> (Rejected (simulation_error sim x), s'))))"

text \<open>The \<^verbatim>\<open>finally\<close> block, and the wake-ups of the resend loop that come after it.\<close>

definition finally_block :: "submit_env \<Rightarrow> send_result promise \<times> submitter \<Rightarrow> send_result promise \<times> submitter" where
  "finally_block env rs = (fst rs, foldl resend ((snd rs)\<lparr>sendDone := True\<rparr>) (wakesAfter env))"

text \<open>
  The submitter when the tracker's call returns: the first send (line 77), the first
  test of the resend loop, run at once when the loop is started (line 84), and the loop's
  wake-ups while the tracker runs.
\<close>

definition started :: "submit_env \<Rightarrow> submitter" where
  "started env =
     foldl resend
       (resend \<lparr>sends = 1, sendDone = False, resendLoop = True, simulations = 0\<rparr> (startInTime env))
       (wakesTracking env)"

definition sendSignedTransaction :: "submit_env \<Rightarrow> send_result promise \<times> submitter" where
  "sendSignedTransaction env =
     (let s0 = \<lparr>sends = 0, sendDone = False, resendLoop = False, simulations = 0\<rparr>
      in case serializeThrows env of
           Some e \<Rightarrow> (Rejected e, s0)
         | None \<Rightarrow>
             (case firstSend env of
                Inl e \<Rightarrow> (Rejected e, s0\<lparr>sends := 1\<rparr>)
              | Inr i \<Rightarrow>
                  (case fst (awaitTransactionSignatureConfirmation
                               (onSignatureResult env) True (events env)) of
                     Pending \<Rightarrow> (Pending, started env)
                   | Rejected e \<Rightarrow> finally_block env (catch_block env e (started env))
                   | Fulfilled confirmation \<Rightarrow>
                       (case try_block confirmation of
                          Inl e \<Rightarrow> finally_block env (catch_block env e (started env))
                        | Inr sl \<Rightarrow>
                            finally_block env (Fulfilled \<lparr>txid = Txid i, txSlot = sl\<rparr>, started env)))))"

text \<open>
  The results of the tracker after which the simulator is not called: a status without
  error, and the rejection with \<^verbatim>\<open>{ timeout: true }\<close>.
\<close>

fun skipsSimulator :: "signature_status option promise \<Rightarrow> bool" where
  "skipsSimulator (Fulfilled (Some c)) = (err c = None)"
| "skipsSimulator (Rejected r) = has_timeout r"
| "skipsSimulator _ = False"

section \<open>The batch sequencer\<close>

type_synonym instruction = string

text \<open>
  Modelled from the spec: the \<^verbatim>\<open>Transaction\<close> class of the ledger's SDK is not part of
  the repository. Section 3 of the spec gives its data: the instructions in order, the
  recent-blockhash reference, and the signatures keyed by signer identity, here a list of
  the required signers, each with the flag whether its signature is present.
\<close>

record transaction =
  instructions :: "instruction list"
  recentBlockhash :: "blockhash option"
  signatures :: "(pubkey \<times> bool) list"

record block_ref =
  blockhash :: blockhash
  lastValidBlockHeight :: nat

text \<open>
  Modelled from the spec: lines 295 to 306 build a transaction with the SDK's
  \<^verbatim>\<open>add\<close>, \<^verbatim>\<open>setSigners\<close> and \<^verbatim>\<open>partialSign\<close>. By section 4.4 the fee payer and
  each co-signer of the group become required signers, the co-signers' signatures are
  applied at once and the fee payer's is deferred. A key pair is given by its public key.
\<close>

definition newTransaction :: "pubkey \<Rightarrow> blockhash \<Rightarrow> instruction list \<Rightarrow> pubkey list \<Rightarrow> transaction" where
  "newTransaction walletKey bh ins signers =
     \<lparr>instructions = ins, recentBlockhash = Some bh,
      signatures = (walletKey, False) # map (\<lambda>k. (k, True)) signers\<rparr>"

text \<open>
  The first loop, lines 287 to 309, from index \<open>i\<close> on. An empty group is skipped. A
  group beyond the end of \<^verbatim>\<open>signersSet\<close> has \<^verbatim>\<open>signers\<close> undefined, and
  \<^verbatim>\<open>signers.map\<close> throws a TypeError.
\<close>

fun buildTransactions ::
  "pubkey \<Rightarrow> blockhash \<Rightarrow> pubkey list list \<Rightarrow> nat \<Rightarrow> instruction list list \<Rightarrow> thrown + transaction list" where
  "buildTransactions w bh signersSet i [] = Inr []"
| "buildTransactions w bh signersSet i (ins # rest) =
     (if ins = [] then buildTransactions w bh signersSet (Suc i) rest
      else if length signersSet \<le> i
      then Inl (Error ''TypeError: Cannot read properties of undefined'')
      else (case buildTransactions w bh signersSet (Suc i) rest of
              Inl e \<Rightarrow> Inl e
            | Inr ts \<Rightarrow> Inr (newTransaction w bh ins (signersSet ! i) # ts)))"

text \<open>The test of lines 313 and 316: some signature entry of the transaction carries the wallet's key.\<close>

definition hasWalletSigner :: "pubkey \<Rightarrow> transaction \<Rightarrow> bool" where
  "hasWalletSigner w t = (find (\<lambda>sig. fst sig = w) (signatures t) \<noteq> None)"

datatype SequenceType = Sequential | Parallel | StopOnFailure

record sequence_result =
  number :: nat
  txs :: "send_result list"

text \<open>
  The environment of one batch: the wallet (its public key, if any, and its batched
  signer, which may throw), the node's answer to \<^verbatim>\<open>getLatestBlockhash\<close>, the
  environment of the call of \<^verbatim>\<open>sendSignedTransaction\<close> at each index, and whether the
  caller's callbacks throw at an index (\<open>None\<close>: they return).
\<close>

record batch_env =
  walletPublicKey :: "pubkey option"
  signAllTransactions :: "transaction list \<Rightarrow> thrown + transaction list"
  getLatestBlockhash :: "thrown + block_ref"
  submit :: "nat \<Rightarrow> submit_env"
  successCallback :: "nat \<Rightarrow> thrown option"
  failCallback :: "nat \<Rightarrow> thrown option"

text \<open>What a batch asks of its environment, in order.\<close>

datatype batch_call =
    GetLatestBlockhash
  | SignAllTransactions "transaction list"
  | SendSigned nat transaction
  | SuccessCallback js_txid nat
  | FailCallback nat

text \<open>
  Line 331, \<^verbatim>\<open>await signedTxnPromise.then(... successCallback(txid, i))\<close>: the awaited
  promise is rejected when the submission is rejected and also when the callback throws;
  \<open>None\<close> when the submission never settles.
\<close>

definition awaited :: "batch_env \<Rightarrow> nat \<Rightarrow> (thrown + send_result) option" where
  "awaited env i =
     (case fst (sendSignedTransaction (submit env i)) of
        Pending \<Rightarrow> None
      | Rejected e \<Rightarrow> Some (Inl e)
      | Fulfilled r \<Rightarrow>
          (case successCallback env i of None \<Rightarrow> Some (Inr r) | Some e \<Rightarrow> Some (Inl e)))"

definition callbackCalls :: "batch_env \<Rightarrow> nat \<Rightarrow> batch_call list" where
  "callbackCalls env i =
     (case fst (sendSignedTransaction (submit env i)) of
        Fulfilled r \<Rightarrow> [SuccessCallback (txid r) i]
      | _ \<Rightarrow> [])"

text \<open>
  The second loop, lines 323 to 348, when the policy is not \<open>Parallel\<close>, from index
  \<open>i\<close> on, with the transactions still to send, \<^verbatim>\<open>pendingTxns\<close> and the calls made so
  far; \<open>n\<close> is \<^verbatim>\<open>signedTxns.length\<close>. After the loop comes the return of line 352.
\<close>

fun sequence ::
  "batch_env \<Rightarrow> SequenceType \<Rightarrow> nat \<Rightarrow> nat \<Rightarrow> transaction list \<Rightarrow> send_result list \<Rightarrow> batch_call list
     \<Rightarrow> sequence_result promise \<times> batch_call list" where
  "sequence env ty n i [] pendingTxns log = (Fulfilled \<lparr>number = n, txs = pendingTxns\<rparr>, log)"
| "sequence env ty n i (t # ts) pendingTxns log =
     (let log' = log @ [SendSigned i t] @ callbackCalls env i
      in case awaited env i of
           None \<Rightarrow> (Pending, log')
         | Some (Inr r) \<Rightarrow> sequence env ty n (Suc i) ts (pendingTxns @ [r]) log'
         | Some (Inl e) \<Rightarrow>
             (case failCallback env i of
                Some e' \<Rightarrow> (Rejected e', log' @ [FailCallback i])
              | None \<Rightarrow>
                  (if ty = StopOnFailure
                   then (Fulfilled \<lparr>number = i, txs = pendingTxns\<rparr>, log' @ [FailCallback i])
                   else sequence env ty n (Suc i) ts pendingTxns (log' @ [FailCallback i]))))"

text \<open>
  The policy \<open>Parallel\<close>: every transaction is submitted, then \<^verbatim>\<open>Promise.all\<close> waits.
  It is rejected as soon as one submission is rejected (the model names the rejection of
  the lowest index, the code the earliest in time), pending while one is pending and none
  rejected, and fulfilled with all results otherwise.
\<close>

fun all_settled :: "send_result promise list \<Rightarrow> send_result list promise" where
  "all_settled [] = Fulfilled []"
| "all_settled (p # ps) =
     (case p of
        Rejected e \<Rightarrow> Rejected e
      | Pending \<Rightarrow> (case all_settled ps of Rejected e \<Rightarrow> Rejected e | _ \<Rightarrow> Pending)
      | Fulfilled r \<Rightarrow>
          (case all_settled ps of
             Rejected e \<Rightarrow> Rejected e
           | Pending \<Rightarrow> Pending
           | Fulfilled rs \<Rightarrow> Fulfilled (r # rs)))"

definition parallel_policy :: "batch_env \<Rightarrow> transaction list \<Rightarrow> batch_call list \<Rightarrow> sequence_result promise \<times> batch_call list" where
  "parallel_policy env signedTxns log =
     (let n = length signedTxns;
          log' = log @ map (\<lambda>i. SendSigned i (signedTxns ! i)) [0..<n]
      in case all_settled (map (\<lambda>i. fst (sendSignedTransaction (submit env i))) [0..<n]) of
           Pending \<Rightarrow> (Pending, log')
         | Rejected e \<Rightarrow> (Rejected e, log')
         | Fulfilled rs \<Rightarrow> (Fulfilled \<lparr>number = n, txs = rs\<rparr>, log'))"

text \<open>
  Lines 279 to 319: the wallet check, the shared blockhash, the transactions built from
  the groups between the supplied ones, the two filters, the one batched signing request,
  and \<^verbatim>\<open>signedTxns\<close>; or what is thrown on the way.
\<close>

definition prepare ::
  "batch_env \<Rightarrow> instruction list list \<Rightarrow> pubkey list list \<Rightarrow> block_ref option
     \<Rightarrow> transaction list \<Rightarrow> transaction list \<Rightarrow> (thrown + transaction list) \<times> batch_call list" where
  "prepare env instructionSet signersSet block beforeTransactions afterTransactions =
     (case walletPublicKey env of
        None \<Rightarrow> (Inl (Error ''Wallet not connected''), [])
      | Some w \<Rightarrow>
          (let fetched = (case block of
                            Some b \<Rightarrow> (Inr b, [])
                          | None \<Rightarrow> (getLatestBlockhash env, [GetLatestBlockhash]))
           in case fst fetched of
                Inl e \<Rightarrow> (Inl e, snd fetched)
              | Inr b \<Rightarrow>
                  (case buildTransactions w (blockhash b) signersSet 0 instructionSet of
                     Inl e \<Rightarrow> (Inl e, snd fetched)
                   | Inr built \<Rightarrow>
                       (let unsignedTxns = beforeTransactions @ built @ afterTransactions;
                            partiallySignedTransactions = filter (hasWalletSigner w) unsignedTxns;
                            fullySignedTransactions = filter (\<lambda>t. \<not> hasWalletSigner w t) unsignedTxns;
                            log = snd fetched @ [SignAllTransactions partiallySignedTransactions]
                        in case signAllTransactions env partiallySignedTransactions of
                             Inl e \<Rightarrow> (Inl e, log)
                           | Inr signedTxns \<Rightarrow> (Inr (fullySignedTransactions @ signedTxns), log)))))"

definition sendTransactions ::
  "batch_env \<Rightarrow> instruction list list \<Rightarrow> pubkey list list \<Rightarrow> SequenceType \<Rightarrow> block_ref option
     \<Rightarrow> transaction list \<Rightarrow> transaction list \<Rightarrow> sequence_result promise \<times> batch_call list" where
  "sendTransactions env instructionSet signersSet sequenceType block beforeTransactions afterTransactions =
     (case prepare env instructionSet signersSet block beforeTransactions afterTransactions of
        (Inl e, log) \<Rightarrow> (Rejected e, log)
      | (Inr signedTxns, log) \<Rightarrow>
          (if sequenceType \<noteq> Parallel
           then sequence env sequenceType (length signedTxns) 0 signedTxns [] log
           else parallel_policy env signedTxns log))"

text \<open>Readings of a batch's calls: the transactions submitted, their indices, the signing requests.\<close>

fun submitted :: "batch_call list \<Rightarrow> transaction list" where
  "submitted [] = []"
| "submitted (SendSigned i t # cs) = t # submitted cs"
| "submitted (c # cs) = submitted cs"

fun sentIndices :: "batch_call list \<Rightarrow> nat list" where
  "sentIndices [] = []"
| "sentIndices (SendSigned i t # cs) = i # sentIndices cs"
| "sentIndices (c # cs) = sentIndices cs"

fun signRequests :: "batch_call list \<Rightarrow> transaction list list" where
  "signRequests [] = []"
| "signRequests (SignAllTransactions ts # cs) = ts # signRequests cs"
| "signRequests (c # cs) = signRequests cs"

text \<open>The results of the indices below \<open>n\<close> whose awaited promise was fulfilled, in order.\<close>

definition fulfilledResults :: "batch_env \<Rightarrow> nat \<Rightarrow> send_result list" where
  "fulfilledResults env n =
     concat (map (\<lambda>i. case awaited env i of Some (Inr r) \<Rightarrow> [r] | _ \<Rightarrow> []) [0..<n])"

text \<open>
  The transaction at index \<open>i\<close> failed when the promise awaited at line 331 was rejected
  (line 333 catches it); it succeeded when that promise was fulfilled.
\<close>

definition failedAt :: "batch_env \<Rightarrow> nat \<Rightarrow> bool" where
  "failedAt env i = (case awaited env i of Some (Inl e) \<Rightarrow> True | _ \<Rightarrow> False)"

definition succeededAt :: "batch_env \<Rightarrow> nat \<Rightarrow> bool" where
  "succeededAt env i = (case awaited env i of Some (Inr r) \<Rightarrow> True | _ \<Rightarrow> False)"

text \<open>
  Lines 329 to 344: after the transaction at index \<open>i\<close> the loop goes on to the next
  index when the awaited promise was fulfilled, and also when it was rejected,
  \<^verbatim>\<open>failCallback\<close> returned and the policy is not \<open>StopOnFailure\<close>. It does not go on
  while the submission is pending, when \<^verbatim>\<open>failCallback\<close> throws, or under
  \<open>StopOnFailure\<close> after a failure.
\<close>

definition loopContinues :: "batch_env \<Rightarrow> SequenceType \<Rightarrow> nat \<Rightarrow> bool" where
  "loopContinues env ty i =
     (case awaited env i of
        None \<Rightarrow> False
      | Some (Inr r) \<Rightarrow> True
      | Some (Inl e) \<Rightarrow> failCallback env i = None \<and> ty \<noteq> StopOnFailure)"

section \<open>Example environments\<close>

text \<open>A node that confirms by notification in slot 5.\<close>

definition quietSimulator :: simulator_env where
  "quietSimulator = \<lparr>latestBlockhash = Inr ''bh2'', rpcRequest = Inr (RpcResult \<lparr>simErr = None, logs = None\<rparr>)\<rparr>"

definition committedEnv :: submit_env where
  "committedEnv =
     \<lparr>serializeThrows = None, firstSend = Inr ''sig'', onSignatureResult = Some 1,
      events = [PollReply (PollStatus None), Notify None 5],
      simulator = quietSimulator, startInTime = True,
      wakesTracking = [True], wakesSimulating = [], wakesAfter = [True, True]\<rparr>"

text \<open>A node that never answers with a status: the timer fires.\<close>

definition timedOutEnv :: submit_env where
  "timedOutEnv = committedEnv\<lparr>events := [PollReply (PollStatus None), Timer]\<rparr>"

text \<open>
  A node that reports the transaction's failure by notification; the simulation then
  shows the failing program's log.
\<close>

definition failingSimulator :: simulator_env where
  "failingSimulator =
     \<lparr>latestBlockhash = Inr ''bh2'',
      rpcRequest = Inr (RpcResult \<lparr>simErr = Some ''InstructionError'',
                                  logs = Some [''Program log: first'', ''Program log: insufficient funds'',
                                               ''Program failed'']\<rparr>)\<rparr>"

definition rejectedEnv :: submit_env where
  "rejectedEnv =
     committedEnv\<lparr>events := [Notify (Some ''InstructionError'') 5],
                  simulator := failingSimulator, wakesSimulating := [True, True]\<rparr>"

text \<open>The same failure, with a node that does not answer the simulation's blockhash request.\<close>

definition brokenSimulator :: simulator_env where
  "brokenSimulator = \<lparr>latestBlockhash = Inl (Error ''fetch failed''), rpcRequest = Inl (Error ''fetch failed'')\<rparr>"

definition inconclusiveEnv :: submit_env where
  "inconclusiveEnv = rejectedEnv\<lparr>simulator := brokenSimulator\<rparr>"

text \<open>A batch of five groups whose transaction at index 2 is rejected, and its wallet.\<close>

definition blk :: block_ref where
  "blk = \<lparr>blockhash = ''bh'', lastValidBlockHeight = 100\<rparr>"

definition walletSign :: "transaction \<Rightarrow> transaction" where
  "walletSign t =
     t\<lparr>signatures := map (\<lambda>sig. if fst sig = ''W'' then (''W'', True) else sig) (signatures t)\<rparr>"

definition fiveEnv :: batch_env where
  "fiveEnv =
     \<lparr>walletPublicKey = Some ''W'',
      signAllTransactions = (\<lambda>ts. Inr (map walletSign ts)),
      getLatestBlockhash = Inr blk,
      submit = (\<lambda>i. if i = 2 then rejectedEnv else committedEnv),
      successCallback = (\<lambda>i. None),
      failCallback = (\<lambda>i. None)\<rparr>"

definition fiveGroups :: "instruction list list" where
  "fiveGroups = [[''a''], [''b''], [''c''], [''d''], [''e'']]"

definition fiveSigners :: "pubkey list list" where
  "fiveSigners = [[], [], [], [], []]"

definition fiveBuilt :: "transaction list" where
  "fiveBuilt = map (\<lambda>x. newTransaction ''W'' ''bh'' [x] []) [''a'', ''b'', ''c'', ''d'', ''e'']"

definition okResult :: send_result where
  "okResult = \<lparr>txid = Txid ''sig'', txSlot = 5\<rparr>"

text \<open>
  Three groups, the second empty and the third with a co-signer; a transaction supplied
  with the wallet as a required signer, and one supplied already signed by another signer.
\<close>

definition mixedGroups :: "instruction list list" where
  "mixedGroups = [[''a''], [], [''b'']]"

definition mixedSigners :: "pubkey list list" where
  "mixedSigners = [[], [], [''K'']]"

definition supplied :: transaction where
  "supplied = \<lparr>instructions = [''q''], recentBlockhash = Some ''bh'', signatures = [(''W'', False)]\<rparr>"

definition presigned :: transaction where
  "presigned = \<lparr>instructions = [''p''], recentBlockhash = Some ''bh'', signatures = [(''K'', True)]\<rparr>"

section \<open>Properties of the confirmation tracker\<close>

text \<open>
  When \<^verbatim>\<open>onSignature\<close> threw, the flag is set, nothing is subscribed, no query is in
  flight and the poll loop has ended: the only event left with an effect is the timer,
  which finds the flag set and returns.
\<close>

lemma stuck_step:
  assumes "doneFlag t" "settled t = Pending" "\<not> subscribed t" "pollsInFlight t = 0" "\<not> pollLoop t"
  shows "step q t e = t \<or> step q t e = t\<lparr>timerArmed := False\<rparr>"
  using assms by (cases e) (auto simp: step_def continuation_def)

lemma stuck_run:
  assumes "doneFlag t" "settled t = Pending" "\<not> subscribed t" "pollsInFlight t = 0" "\<not> pollLoop t"
  shows "settled (foldl (step q) t es) = Pending \<and> calls (foldl (step q) t es) = calls t"
  using assms
proof (induction es arbitrary: t)
  case Nil
  then show ?case by simp
next
  case (Cons e es)
  from stuck_step[OF Cons.prems, of q e]
  have "step q t e = t \<or> step q t e = t\<lparr>timerArmed := False\<rparr>" .
  then show ?case
  proof
    assume "step q t e = t"
    with Cons show ?thesis by simp
  next
    assume eq: "step q t e = t\<lparr>timerArmed := False\<rparr>"
    from Cons.prems have "settled (foldl (step q) (t\<lparr>timerArmed := False\<rparr>) es) = Pending \<and>
       calls (foldl (step q) (t\<lparr>timerArmed := False\<rparr>) es) = calls (t\<lparr>timerArmed := False\<rparr>)"
      by (intro Cons.IH) simp_all
    with eq show ?thesis by simp
  qed
qed

text \<open>
  C9. If \<^verbatim>\<open>onSignature\<close> throws during the setup of
  \<^verbatim>\<open>awaitTransactionSignatureConfirmation\<close>, the promise is neither resolved nor
  rejected, whatever \<^verbatim>\<open>queryStatus\<close> is and whatever events follow in whatever order
  (so for every value of \<^verbatim>\<open>timeout\<close>): the call never returns, no status is queried
  and no listener is removed.
\<close>

theorem subscribe_failure_never_returns:
  "awaitTransactionSignatureConfirmation None q evs = (Pending, [OnSignature])"
  using stuck_run[of "executor None q" q evs]
  by (simp add: awaitTransactionSignatureConfirmation_def track_def executor_def poll_loop_def Let_def)

theorem subscribe_failure_never_returns_example:
  "awaitTransactionSignatureConfirmation None True [PollWake, Timer, Notify None 3, PollReply PollThrows]
     = (Pending, [OnSignature])"
  using subscribe_failure_never_returns[of True "[PollWake, Timer, Notify None 3, PollReply PollThrows]"]
  by simp

text \<open>
  With a listener registered, every step keeps three facts: the function has returned
  exactly when its promise is settled, \<^verbatim>\<open>onSignature\<close> was called once, and
  \<^verbatim>\<open>removeSignatureListener\<close> was called once if the promise is fulfilled and not at
  all otherwise.
\<close>

lemma count_step:
  assumes "returned t = (settled t \<noteq> Pending)"
    and "unregistered (calls t) = (case settled t of Fulfilled v \<Rightarrow> 1 | _ \<Rightarrow> 0)"
    and "registered (calls t) = 1"
  shows "returned (step q t e) = (settled (step q t e) \<noteq> Pending) \<and>
     unregistered (calls (step q t e)) = (case settled (step q t e) of Fulfilled v \<Rightarrow> 1 | _ \<Rightarrow> 0) \<and>
     registered (calls (step q t e)) = 1"
  using assms
  by (cases e; cases "settled t")
     (auto simp: step_def continuation_def resolve_def reject_def poll_loop_def on_status_def
        registered_def unregistered_def Let_def split: poll_reply.splits option.splits)

lemma count_run:
  assumes "returned t = (settled t \<noteq> Pending)"
    and "unregistered (calls t) = (case settled t of Fulfilled v \<Rightarrow> 1 | _ \<Rightarrow> 0)"
    and "registered (calls t) = 1"
  shows "unregistered (calls (foldl (step q) t es)) =
           (case settled (foldl (step q) t es) of Fulfilled v \<Rightarrow> 1 | _ \<Rightarrow> 0) \<and>
         registered (calls (foldl (step q) t es)) = 1"
  using assms
proof (induction es arbitrary: t)
  case Nil
  then show ?case by simp
next
  case (Cons e es)
  from count_step[OF Cons.prems, of q e] show ?case
    by (simp add: Cons.IH)
qed

text \<open>
  C1. The claim: the subscription registered by \<^verbatim>\<open>onSignature\<close> is removed by
  \<^verbatim>\<open>removeSignatureListener\<close> on every exit path, a timeout and a rejection
  included. What the code does, for every behaviour of the node: it registers once, and
  it removes the listener once when the call returns a status and never when the call
  ends in a rejection, the timeout included (nor while it is pending). The example is a
  node that stays silent until the timer fires: one registration, no removal.
\<close>

theorem listener_removed_only_when_fulfilled:
  "registered (snd (awaitTransactionSignatureConfirmation (Some i) q evs)) = 1 \<and>
   unregistered (snd (awaitTransactionSignatureConfirmation (Some i) q evs)) =
     (case fst (awaitTransactionSignatureConfirmation (Some i) q evs) of
        Fulfilled v \<Rightarrow> 1 | _ \<Rightarrow> 0)"
  using count_run[of "executor (Some i) q" q evs]
  by (simp add: awaitTransactionSignatureConfirmation_def track_def executor_def poll_loop_def
      Let_def registered_def unregistered_def)

theorem listener_leaks_on_timeout:
  "awaitTransactionSignatureConfirmation (Some 7) True [PollReply (PollStatus None), Timer]
     = (Rejected TimeoutObj, [OnSignature, GetSignatureStatuses]) \<and>
   registered [OnSignature, GetSignatureStatuses] = 1 \<and>
   unregistered [OnSignature, GetSignatureStatuses] = 0"
proof -
  have ev: "awaitTransactionSignatureConfirmation (Some 7) True [PollReply (PollStatus None), Timer]
     = (Rejected TimeoutObj, [OnSignature, GetSignatureStatuses])"
    by (simp add: awaitTransactionSignatureConfirmation_def track_def executor_def poll_loop_def
      Let_def step_def continuation_def on_status_def reject_def resolve_def)
  from listener_removed_only_when_fulfilled[of 7 True "[PollReply (PollStatus None), Timer]"] ev
  show ?thesis by simp
qed

text \<open>
  The tracker returns only a status, and only one without error: the listener resolves
  the promise when the notification has no error, the poll when the status has none.
  So the two \<^verbatim>\<open>throw\<close> statements of the submitter's try block (lines 95 and 99) are
  never reached after this tracker, and the tracker reports a timeout in one way only,
  by rejecting with \<^verbatim>\<open>{ timeout: true }\<close>.
\<close>

lemma fulfilled_step:
  assumes "settled t = Fulfilled v \<Longrightarrow> (\<exists>s. v = Some s \<and> err s = None)"
      and "settled (step q t e) = Fulfilled v"
  shows "\<exists>s. v = Some s \<and> err s = None"
  using assms
  by (cases e; cases "settled t")
     (auto simp: step_def continuation_def resolve_def reject_def on_status_def poll_loop_def Let_def
        split: if_splits poll_reply.splits option.splits promise.splits)

lemma fulfilled_run:
  assumes "\<And>v. settled t = Fulfilled v \<Longrightarrow> (\<exists>s. v = Some s \<and> err s = None)"
      and "settled (foldl (step q) t es) = Fulfilled v"
  shows "\<exists>s. v = Some s \<and> err s = None"
  using assms
proof (induction es arbitrary: t)
  case Nil
  then show ?case by simp
next
  case (Cons e es)
  show ?case
  proof (rule Cons.IH[of "step q t e"])
    fix w assume "settled (step q t e) = Fulfilled w"
    with Cons.prems(1) fulfilled_step[of t w q e] show "\<exists>s. w = Some s \<and> err s = None" by blast
  next
    from Cons.prems(2) show "settled (foldl (step q) (step q t e) es) = Fulfilled v" by simp
  qed
qed

lemma tracker_fulfils_with_clean_status:
  assumes "fst (awaitTransactionSignatureConfirmation r q evs) = Fulfilled v"
  shows "\<exists>s. v = Some s \<and> err s = None"
proof (rule fulfilled_run[where t = "executor r q" and q = q and es = evs])
  fix w assume "settled (executor r q) = Fulfilled w"
  then show "\<exists>s. w = Some s \<and> err s = None"
    by (simp add: executor_def poll_loop_def Let_def split: option.splits if_splits)
next
  from assms show "settled (foldl (step q) (executor r q) evs) = Fulfilled v"
    by (simp add: awaitTransactionSignatureConfirmation_def track_def Let_def)
qed

section \<open>Properties of the submitter\<close>

text \<open>
  The loop over the log lines finds the last line with the marker: it is the first such
  line of the reversed list.
\<close>

lemma scan_logs_take:
  "n \<le> length ls \<Longrightarrow>
   scan_logs ls n =
     map_option (\<lambda>l. ''Transaction failed: '' @ drop 13 l)
       (find (\<lambda>l. startsWith l ''Program log: '') (rev (take n ls)))"
proof (induction n)
  case 0
  then show ?case by simp
next
  case (Suc n)
  then have "take (Suc n) ls = take n ls @ [ls ! n]"
    by (simp add: take_Suc_conv_app_nth)
  with Suc show ?case by (simp add: eval_nat_numeral)
qed

lemma scan_logs_find:
  "scan_logs ls (length ls) =
     map_option (\<lambda>l. ''Transaction failed: '' @ drop 13 l)
       (find (\<lambda>l. startsWith l ''Program log: '') (rev ls))"
  using scan_logs_take[of "length ls" ls] by simp

lemma resend_done:
  "sendDone s \<Longrightarrow> sendDone (resend s b) \<and> sends (resend s b) = sends s \<and> \<not> resendLoop (resend s b)"
  by (simp add: resend_def)

lemma resend_run_done:
  "sendDone s \<Longrightarrow> sendDone (foldl resend s ws) \<and> sends (foldl resend s ws) = sends s
     \<and> (ws = [] \<or> \<not> resendLoop (foldl resend s ws))"
proof (induction ws arbitrary: s)
  case Nil
  then show ?case by simp
next
  case (Cons b ws)
  from resend_done[OF Cons.prems, of b] Cons.IH[of "resend s b"]
  show ?case by (cases ws) auto
qed

lemma resend_simulations: "simulations (foldl resend s ws) = simulations s"
  by (induction ws arbitrary: s) (simp_all add: resend_def)

lemma resend_sends_flag: "sends (foldl resend (s\<lparr>simulations := k\<rparr>) ws) = sends (foldl resend s ws)"
proof (induction ws arbitrary: s)
  case Nil
  then show ?case by simp
next
  case (Cons b ws)
  have "resend (s\<lparr>simulations := k\<rparr>) b = (resend s b)\<lparr>simulations := k\<rparr>"
    by (simp add: resend_def)
  with Cons show ?case by simp
qed

lemma started_simulations: "simulations (started env) = 0"
  by (simp add: started_def resend_simulations resend_def)

lemma finally_block_done:
  "sendDone (snd (finally_block env rs)) \<and>
   sends (snd (finally_block env rs)) = sends (snd rs) \<and>
   simulations (snd (finally_block env rs)) = simulations (snd rs) \<and>
   (wakesAfter env = [] \<or> \<not> resendLoop (snd (finally_block env rs))) \<and>
   fst (finally_block env rs) = fst rs"
  using resend_run_done[of "(snd rs)\<lparr>sendDone := True\<rparr>" "wakesAfter env"]
  by (simp add: finally_block_def resend_simulations)

lemma catch_block_wakesAfter: "catch_block (env\<lparr>wakesAfter := ws\<rparr>) e s = catch_block env e s"
  by (simp add: catch_block_def)

lemma started_wakesAfter: "started (env\<lparr>wakesAfter := ws\<rparr>) = started env"
  by (simp add: started_def)

lemma catch_block_timeout:
  "has_timeout e \<Longrightarrow>
   catch_block env e s = (Rejected (Error ''Timed out awaiting confirmation on transaction''), s)"
  by (simp add: catch_block_def)

lemma catch_block_simulates:
  "\<not> has_timeout e \<Longrightarrow>
   simulations (snd (catch_block env e s)) = Suc (simulations s) \<and>
   sends (snd (catch_block env e s)) = sends (foldl resend s (wakesSimulating env))"
  by (simp add: catch_block_def Let_def resend_simulations resend_sends_flag
      split: option.splits sum.splits)

text \<open>When the tracker returns, the call is fulfilled with the transaction id of the first send and the status' slot.\<close>

lemma confirmed_result:
  assumes "serializeThrows env = None" and "firstSend env = Inr i"
      and "fst (awaitTransactionSignatureConfirmation (onSignatureResult env) True (events env))
             = Fulfilled v"
  shows "\<exists>s. v = Some s \<and> fst (sendSignedTransaction env) = Fulfilled \<lparr>txid = Txid i, txSlot = slot s\<rparr>"
proof -
  from tracker_fulfils_with_clean_status[OF assms(3)]
  obtain s where "v = Some s" "err s = None" by blast
  with assms show ?thesis
    by (simp add: sendSignedTransaction_def try_block_def finally_block_done)
qed

text \<open>The examples, evaluated.\<close>

lemma committed_track:
  "awaitTransactionSignatureConfirmation (onSignatureResult committedEnv) True (events committedEnv)
     = (Fulfilled (Some \<lparr>slot = 5, confirmations = Some 0, err = None\<rparr>),
        [OnSignature, GetSignatureStatuses, RemoveSignatureListener 1])"
  by (simp add: committedEnv_def awaitTransactionSignatureConfirmation_def track_def executor_def
      poll_loop_def step_def continuation_def on_status_def reject_def resolve_def Let_def)

lemma timedOut_track:
  "awaitTransactionSignatureConfirmation (onSignatureResult timedOutEnv) True (events timedOutEnv)
     = (Rejected TimeoutObj, [OnSignature, GetSignatureStatuses])"
  by (simp add: timedOutEnv_def committedEnv_def awaitTransactionSignatureConfirmation_def track_def
      executor_def poll_loop_def step_def continuation_def on_status_def reject_def resolve_def Let_def)

lemma rejected_track:
  "awaitTransactionSignatureConfirmation (onSignatureResult rejectedEnv) True (events rejectedEnv)
     = (Rejected (StatusObj \<lparr>slot = 5, confirmations = Some 0, err = Some ''InstructionError''\<rparr>),
        [OnSignature, GetSignatureStatuses])"
  by (simp add: rejectedEnv_def committedEnv_def awaitTransactionSignatureConfirmation_def track_def
      executor_def poll_loop_def step_def continuation_def on_status_def reject_def resolve_def Let_def)

lemma inconclusive_track:
  "awaitTransactionSignatureConfirmation (onSignatureResult inconclusiveEnv) True (events inconclusiveEnv)
     = (Rejected (StatusObj \<lparr>slot = 5, confirmations = Some 0, err = Some ''InstructionError''\<rparr>),
        [OnSignature, GetSignatureStatuses])"
  by (simp add: inconclusiveEnv_def rejectedEnv_def committedEnv_def awaitTransactionSignatureConfirmation_def track_def
      executor_def poll_loop_def step_def continuation_def on_status_def reject_def resolve_def Let_def)

lemma committed_fields:
  "serializeThrows committedEnv = None" "firstSend committedEnv = Inr ''sig''"
  "simulator committedEnv = quietSimulator" "startInTime committedEnv = True"
  "wakesTracking committedEnv = [True]" "wakesSimulating committedEnv = []"
  "wakesAfter committedEnv = [True, True]"
  by (simp_all add: committedEnv_def)

lemma timedOut_fields:
  "serializeThrows timedOutEnv = None" "firstSend timedOutEnv = Inr ''sig''"
  "simulator timedOutEnv = quietSimulator" "startInTime timedOutEnv = True"
  "wakesTracking timedOutEnv = [True]" "wakesSimulating timedOutEnv = []"
  "wakesAfter timedOutEnv = [True, True]"
  by (simp_all add: timedOutEnv_def committedEnv_def)

lemma rejected_fields:
  "serializeThrows rejectedEnv = None" "firstSend rejectedEnv = Inr ''sig''"
  "simulator rejectedEnv = failingSimulator" "startInTime rejectedEnv = True"
  "wakesTracking rejectedEnv = [True]" "wakesSimulating rejectedEnv = [True, True]"
  "wakesAfter rejectedEnv = [True, True]"
  by (simp_all add: rejectedEnv_def committedEnv_def)

lemma inconclusive_fields:
  "serializeThrows inconclusiveEnv = None" "firstSend inconclusiveEnv = Inr ''sig''"
  "simulator inconclusiveEnv = brokenSimulator" "startInTime inconclusiveEnv = True"
  "wakesTracking inconclusiveEnv = [True]" "wakesSimulating inconclusiveEnv = [True, True]"
  "wakesAfter inconclusiveEnv = [True, True]"
  by (simp_all add: inconclusiveEnv_def rejectedEnv_def committedEnv_def)

lemma failingSimulator_result:
  "simulateTransaction failingSimulator =
     Inr \<lparr>simErr = Some ''InstructionError'',
          logs = Some [''Program log: first'', ''Program log: insufficient funds'', ''Program failed'']\<rparr>"
  by (simp add: simulateTransaction_def failingSimulator_def)

lemma brokenSimulator_result: "simulateTransaction brokenSimulator = Inl (Error ''fetch failed'')"
  by (simp add: simulateTransaction_def brokenSimulator_def)

lemma committed_started: "started committedEnv = \<lparr>sends = 3, sendDone = False, resendLoop = True, simulations = 0\<rparr>"
  by (simp add: started_def committed_fields resend_def)

lemma timedOut_started: "started timedOutEnv = \<lparr>sends = 3, sendDone = False, resendLoop = True, simulations = 0\<rparr>"
  by (simp add: started_def timedOut_fields resend_def)

lemma rejected_started: "started rejectedEnv = \<lparr>sends = 3, sendDone = False, resendLoop = True, simulations = 0\<rparr>"
  by (simp add: started_def rejected_fields resend_def)

lemma inconclusive_started: "started inconclusiveEnv = \<lparr>sends = 3, sendDone = False, resendLoop = True, simulations = 0\<rparr>"
  by (simp add: started_def inconclusive_fields resend_def)

lemma committed_run:
  "sendSignedTransaction committedEnv =
     (Fulfilled \<lparr>txid = Txid ''sig'', txSlot = 5\<rparr>,
      \<lparr>sends = 3, sendDone = True, resendLoop = False, simulations = 0\<rparr>)"
  by (simp add: sendSignedTransaction_def committed_fields committed_track committed_started
      try_block_def finally_block_def resend_def)

lemma timedOut_run:
  "sendSignedTransaction timedOutEnv =
     (Rejected (Error ''Timed out awaiting confirmation on transaction''),
      \<lparr>sends = 3, sendDone = True, resendLoop = False, simulations = 0\<rparr>)"
  by (simp add: sendSignedTransaction_def timedOut_fields timedOut_track timedOut_started
      catch_block_def finally_block_def resend_def)

lemma rejected_run:
  "sendSignedTransaction rejectedEnv =
     (Rejected (Error ''Transaction failed: insufficient funds''),
      \<lparr>sends = 5, sendDone = True, resendLoop = False, simulations = 1\<rparr>)"
  by (simp add: sendSignedTransaction_def rejected_fields rejected_track rejected_started
      catch_block_def finally_block_def resend_def failingSimulator_result
      simulation_error_def startsWith_def)

lemma inconclusive_run:
  "sendSignedTransaction inconclusiveEnv =
     (Fulfilled \<lparr>txid = Undefined, txSlot = 0\<rparr>,
      \<lparr>sends = 5, sendDone = True, resendLoop = False, simulations = 1\<rparr>)"
  by (simp add: sendSignedTransaction_def inconclusive_fields inconclusive_track inconclusive_started
      catch_block_def finally_block_def resend_def brokenSimulator_result)

text \<open>
  C3. The claim: when the tracker reports a timeout, the submitter runs the simulator for
  a diagnostic reason before it surfaces the timeout, and the simulator cannot change the
  kind of the outcome. At the node that stays silent until the timer fires the tracker
  reports the timeout and the simulator is not called at all.
\<close>

theorem timeout_runs_no_simulation:
  "fst (awaitTransactionSignatureConfirmation (onSignatureResult timedOutEnv) True (events timedOutEnv))
     = Rejected TimeoutObj \<and>
   fst (sendSignedTransaction timedOutEnv)
     = Rejected (Error ''Timed out awaiting confirmation on transaction'') \<and>
   simulations (snd (sendSignedTransaction timedOutEnv)) = 0"
  by (simp add: timedOut_track timedOut_run)

text \<open>
  C3, as amended. When the tracker rejects with \<^verbatim>\<open>{ timeout: true }\<close>, line 105 throws
  the timeout error at once: \<^verbatim>\<open>sendSignedTransaction\<close> is rejected with
  \<^verbatim>\<open>Timed out awaiting confirmation on transaction\<close> and the simulator is not called,
  whatever the simulator would have answered; so nothing the simulator does can change
  the outcome.
\<close>

theorem timeout_skips_simulator:
  assumes "serializeThrows env = None" and "firstSend env = Inr i"
      and "fst (awaitTransactionSignatureConfirmation (onSignatureResult env) True (events env))
             = Rejected TimeoutObj"
  shows "fst (sendSignedTransaction env)
           = Rejected (Error ''Timed out awaiting confirmation on transaction'') \<and>
         simulations (snd (sendSignedTransaction env)) = 0"
  using assms
  by (simp add: sendSignedTransaction_def finally_block_done catch_block_timeout started_simulations)

theorem timeout_skips_simulator_example:
  "fst (sendSignedTransaction (timedOutEnv\<lparr>simulator := brokenSimulator\<rparr>))
     = Rejected (Error ''Timed out awaiting confirmation on transaction'') \<and>
   simulations (snd (sendSignedTransaction (timedOutEnv\<lparr>simulator := brokenSimulator\<rparr>))) = 0"
proof -
  have "fst (awaitTransactionSignatureConfirmation
               (onSignatureResult (timedOutEnv\<lparr>simulator := brokenSimulator\<rparr>)) True
               (events (timedOutEnv\<lparr>simulator := brokenSimulator\<rparr>))) = Rejected TimeoutObj"
    using timedOut_track by simp
  from timeout_skips_simulator[OF _ _ this, of "''sig''"] show ?thesis
    by (simp add: timedOut_fields)
qed

text \<open>
  C4. The claim: \<^verbatim>\<open>sendSignedTransaction\<close> never resolves with a \<^verbatim>\<open>txid\<close> that is
  undefined or that was taken from a simulation. What the code does when the tracker
  rejects for a reason other than the timeout and the simulation throws or shows no
  error: the catch block ends without throwing, line 126 overwrites \<^verbatim>\<open>txid\<close> with
  \<^verbatim>\<open>simulateResult?.err\<close>, and the call is fulfilled with \<^verbatim>\<open>txid\<close> undefined (the
  simulation threw) or null (it showed no error) and slot 0.
\<close>

theorem inconclusive_simulation_fulfils_without_txid:
  assumes "serializeThrows env = None" and "firstSend env = Inr i"
      and "fst (awaitTransactionSignatureConfirmation (onSignatureResult env) True (events env))
             = Rejected r"
      and "\<not> has_timeout r"
      and "case simulateTransaction (simulator env) of Inl x \<Rightarrow> True | Inr sim \<Rightarrow> simErr sim = None"
  shows "fst (sendSignedTransaction env) =
           Fulfilled \<lparr>txid = (case simulateTransaction (simulator env) of
                                Inl x \<Rightarrow> Undefined
                              | Inr sim \<Rightarrow> Null),
                      txSlot = 0\<rparr>"
  using assms
  by (simp add: sendSignedTransaction_def finally_block_done catch_block_def Let_def
      split: sum.splits)

theorem inconclusive_simulation_example:
  "fst (sendSignedTransaction inconclusiveEnv) = Fulfilled \<lparr>txid = Undefined, txSlot = 0\<rparr>"
proof -
  have tr: "fst (awaitTransactionSignatureConfirmation (onSignatureResult inconclusiveEnv) True
                   (events inconclusiveEnv))
              = Rejected (StatusObj \<lparr>slot = 5, confirmations = Some 0, err = Some ''InstructionError''\<rparr>)"
    by (simp add: inconclusive_track)
  have nt: "\<not> has_timeout (StatusObj \<lparr>slot = 5, confirmations = Some 0, err = Some ''InstructionError''\<rparr>)"
    by simp
  from inconclusive_simulation_fulfils_without_txid[OF _ _ tr nt, of "''sig''"] show ?thesis
    by (simp add: inconclusive_fields brokenSimulator_result)
qed

text \<open>
  C7. When the tracker rejects for a reason other than the timeout and the simulated
  result carries an error, \<^verbatim>\<open>sendSignedTransaction\<close> is rejected with an \<^verbatim>\<open>Error\<close>
  whose message comes from the first log line, scanning from the last line to the first,
  that begins with \<^verbatim>\<open>Program log: \<close>: the line without these 13 characters, after
  \<^verbatim>\<open>Transaction failed: \<close>. When no line begins with the marker, or the result has no
  logs, the message is the error itself as \<^verbatim>\<open>JSON.stringify\<close> gives it.
\<close>

theorem simulator_surfaces_last_program_log:
  assumes "serializeThrows env = None" and "firstSend env = Inr i"
      and "fst (awaitTransactionSignatureConfirmation (onSignatureResult env) True (events env))
             = Rejected r"
      and "\<not> has_timeout r"
      and "simulateTransaction (simulator env) = Inr sim"
      and "simErr sim = Some e"
  shows "fst (sendSignedTransaction env) =
           Rejected (Error (case logs sim of
                              None \<Rightarrow> e
                            | Some ls \<Rightarrow>
                                (case find (\<lambda>l. startsWith l ''Program log: '') (rev ls) of
                                   None \<Rightarrow> e
                                 | Some l \<Rightarrow> ''Transaction failed: '' @ drop 13 l)))"
  using assms
  by (simp add: sendSignedTransaction_def finally_block_done catch_block_def Let_def
      simulation_error_def scan_logs_find split: option.splits)

theorem simulator_surfaces_last_program_log_example:
  "fst (sendSignedTransaction rejectedEnv) = Rejected (Error ''Transaction failed: insufficient funds'')"
proof -
  have tr: "fst (awaitTransactionSignatureConfirmation (onSignatureResult rejectedEnv) True
                   (events rejectedEnv))
              = Rejected (StatusObj \<lparr>slot = 5, confirmations = Some 0, err = Some ''InstructionError''\<rparr>)"
    by (simp add: rejected_track)
  have nt: "\<not> has_timeout (StatusObj \<lparr>slot = 5, confirmations = Some 0, err = Some ''InstructionError''\<rparr>)"
    by simp
  have sim: "simulateTransaction (simulator rejectedEnv) =
      Inr \<lparr>simErr = Some ''InstructionError'',
           logs = Some [''Program log: first'', ''Program log: insufficient funds'', ''Program failed'']\<rparr>"
    by (simp add: rejected_fields failingSimulator_result)
  from simulator_surfaces_last_program_log[OF _ _ tr nt sim, of "''sig''" "''InstructionError''"]
  show ?thesis
    by (simp add: rejected_fields startsWith_def)
qed

text \<open>
  C8. The claim: the resend loop is stopped on every exit path, so that at most one
  resend follows within one interval once the terminal outcome is determined, and none
  after. At the node that reports the failure by notification, the tracker has
  determined the rejection when three sends were made; the simulation then spans two
  wake-ups of the loop, 500 ms apart, each of which finds the flag unset and sends again:
  five sends when the call ends.
\<close>

theorem resends_continue_during_simulation:
  "fst (awaitTransactionSignatureConfirmation (onSignatureResult rejectedEnv) True (events rejectedEnv))
     = Rejected (StatusObj \<lparr>slot = 5, confirmations = Some 0, err = Some ''InstructionError''\<rparr>) \<and>
   sends (started rejectedEnv) = 3 \<and>
   sends (snd (sendSignedTransaction rejectedEnv)) = 5"
  by (simp add: rejected_track rejected_started rejected_run)

text \<open>
  C8, as amended. Once the resend loop was started, every exit path of
  \<^verbatim>\<open>sendSignedTransaction\<close> sets the flag; no wake-up after the \<^verbatim>\<open>finally\<close> block
  sends again, and the first one ends the loop. When the tracker returns a status without
  error or reports the timeout, the simulator is not called and the sends are those made
  when the tracker returned. Otherwise the simulator runs before the flag is set, and the
  loop sends again at each wake-up in time during the simulation.
\<close>

theorem resend_stops_at_finally:
  assumes "serializeThrows env = None" and "firstSend env = Inr i"
      and "fst (awaitTransactionSignatureConfirmation (onSignatureResult env) True (events env)) \<noteq> Pending"
  shows "sendDone (snd (sendSignedTransaction env)) \<and>
         sends (snd (sendSignedTransaction env)) = sends (snd (sendSignedTransaction (env\<lparr>wakesAfter := []\<rparr>))) \<and>
         (wakesAfter env = [] \<or> \<not> resendLoop (snd (sendSignedTransaction env))) \<and>
         (simulations (snd (sendSignedTransaction env)) = 0) =
            skipsSimulator (fst (awaitTransactionSignatureConfirmation (onSignatureResult env) True (events env))) \<and>
         sends (snd (sendSignedTransaction env)) =
            sends (foldl resend (started env)
                     (if simulations (snd (sendSignedTransaction env)) = 0 then [] else wakesSimulating env))"
proof (cases "fst (awaitTransactionSignatureConfirmation (onSignatureResult env) True (events env))")
  case Pending
  with assms show ?thesis by simp
next
  case (Rejected r)
  show ?thesis
  proof (cases "has_timeout r")
    case True
    with assms Rejected show ?thesis
      by (simp add: sendSignedTransaction_def finally_block_done catch_block_timeout
          started_wakesAfter started_simulations)
  next
    case False
    with assms Rejected show ?thesis
      by (simp add: sendSignedTransaction_def finally_block_done catch_block_simulates
          catch_block_wakesAfter started_wakesAfter started_simulations)
  qed
next
  case (Fulfilled v)
  show ?thesis
  proof (cases "try_block v")
    case (Inl e)
    then have nt: "\<not> has_timeout e" and sk: "\<not> skipsSimulator (Fulfilled v)"
      by (auto simp: try_block_def split: option.splits if_splits)
    with assms Fulfilled Inl show ?thesis
      by (simp add: sendSignedTransaction_def finally_block_done catch_block_simulates
          catch_block_wakesAfter started_wakesAfter started_simulations)
  next
    case (Inr sl)
    then have sk: "skipsSimulator (Fulfilled v)"
      by (auto simp: try_block_def split: option.splits if_splits)
    with assms Fulfilled Inr show ?thesis
      by (simp add: sendSignedTransaction_def finally_block_done
          started_wakesAfter started_simulations)
  qed
qed


theorem resend_stops_at_finally_example:
  "sendDone (snd (sendSignedTransaction rejectedEnv)) \<and>
   sends (snd (sendSignedTransaction rejectedEnv)) = 5 \<and>
   sends (snd (sendSignedTransaction (rejectedEnv\<lparr>wakesAfter := []\<rparr>))) = 5 \<and>
   \<not> resendLoop (snd (sendSignedTransaction rejectedEnv)) \<and>
   simulations (snd (sendSignedTransaction rejectedEnv)) = 1 \<and>
   sends (foldl resend (started rejectedEnv) (wakesSimulating rejectedEnv)) = 5"
proof -
  have pre: "serializeThrows rejectedEnv = None" "firstSend rejectedEnv = Inr ''sig''"
       "wakesAfter rejectedEnv \<noteq> []"
    by (simp_all add: rejected_fields)
  have np: "fst (awaitTransactionSignatureConfirmation (onSignatureResult rejectedEnv) True
                   (events rejectedEnv)) \<noteq> Pending"
    by (simp add: rejected_track)
  from resend_stops_at_finally[OF pre(1) pre(2) np] pre(3) show ?thesis
    by (simp add: rejected_run)
qed

section \<open>Properties of the batch sequencer\<close>

text \<open>Readings of the calls, over appended lists and over the calls of the loops.\<close>

lemma sentIndices_append: "sentIndices (a @ b) = sentIndices a @ sentIndices b"
  by (induction a rule: sentIndices.induct) simp_all

lemma submitted_append: "submitted (a @ b) = submitted a @ submitted b"
  by (induction a rule: submitted.induct) simp_all

lemma signRequests_append: "signRequests (a @ b) = signRequests a @ signRequests b"
  by (induction a rule: signRequests.induct) simp_all

lemma callbackCalls_none:
  "sentIndices (callbackCalls env i) = []" "submitted (callbackCalls env i) = []"
  "signRequests (callbackCalls env i) = []"
  by (simp_all add: callbackCalls_def split: promise.splits)

lemma prepare_log:
  "sentIndices (snd (prepare env is ss block before after)) = [] \<and>
   submitted (snd (prepare env is ss block before after)) = []"
  by (simp add: prepare_def Let_def sentIndices_append submitted_append
      split: option.splits sum.splits)


text \<open>At most one result per index, and none for an index that failed.\<close>

lemma fulfilledResults_Suc:
  "fulfilledResults env (Suc n) =
     fulfilledResults env n @ (case awaited env n of Some (Inr r) \<Rightarrow> [r] | _ \<Rightarrow> [])"
  by (simp add: fulfilledResults_def)

lemma fulfilledResults_length: "length (fulfilledResults env n) \<le> n"
  by (induction n) (auto simp: fulfilledResults_Suc fulfilledResults_def split: option.splits sum.splits)

lemma fulfilledResults_all:
  "(\<forall>j<n. succeededAt env j) \<Longrightarrow> length (fulfilledResults env n) = n"
  by (induction n)
     (auto simp: fulfilledResults_Suc fulfilledResults_def succeededAt_def split: option.splits sum.splits)

lemma fulfilledResults_failed:
  "j < n \<Longrightarrow> failedAt env j \<Longrightarrow> length (fulfilledResults env n) < n"
proof (induction n)
  case 0
  then show ?case by simp
next
  case (Suc n)
  show ?case
  proof (cases "j = n")
    case True
    with Suc.prems fulfilledResults_length[of env n] show ?thesis
      by (auto simp: fulfilledResults_Suc failedAt_def split: option.splits sum.splits)
  next
    case False
    with Suc have "length (fulfilledResults env n) < n" by simp
    then show ?thesis
      by (auto simp: fulfilledResults_Suc split: option.splits sum.splits)
  qed
qed

text \<open>
  The second loop under \<open>Sequential\<close>, when every awaited promise settles and
  \<^verbatim>\<open>failCallback\<close> returns: it runs to the end. Under \<open>StopOnFailure\<close> it returns at
  the first index that fails.
\<close>

lemma upt_shift: "[i..<i + Suc m] = i # [Suc i..<Suc i + m]"
  using upt_conv_Cons[of i "i + Suc m"] by simp

lemma sequence_sequential:
  assumes "\<forall>j<length ts. awaited env (i + j) \<noteq> None"
      and "\<forall>j<length ts. failedAt env (i + j) \<longrightarrow> failCallback env (i + j) = None"
  shows "fst (sequence env Sequential n i ts pend log) =
           Fulfilled \<lparr>number = n,
                      txs = pend @ concat (map (\<lambda>j. case awaited env j of Some (Inr r) \<Rightarrow> [r] | _ \<Rightarrow> [])
                                             [i..<i + length ts])\<rparr>"
  using assms
proof (induction ts arbitrary: i pend log)
  case Nil
  then show ?case by simp
next
  case (Cons t ts)
  have a: "\<forall>j<length ts. awaited env (Suc i + j) \<noteq> None"
    using Cons.prems(1) by (metis add_Suc add_Suc_right length_Cons Suc_less_eq)
  have b: "\<forall>j<length ts. failedAt env (Suc i + j) \<longrightarrow> failCallback env (Suc i + j) = None"
    using Cons.prems(2) by (metis add_Suc add_Suc_right length_Cons Suc_less_eq)
  from Cons.prems(1) have c: "awaited env i \<noteq> None" by force
  from Cons.prems(2) have d: "failedAt env i \<longrightarrow> failCallback env i = None" by force
  have e: "[i..<i + length (t # ts)] = i # [Suc i..<Suc i + length ts]"
    using upt_shift[of i "length ts"] by simp
  show ?case
  proof (cases "awaited env i")
    case None
    with c show ?thesis by simp
  next
    case (Some x)
    show ?thesis
    proof (cases x)
      case (Inl err)
      with Some d have "failCallback env i = None" by (simp add: failedAt_def)
      with Some Inl Cons.IH[OF a b] e show ?thesis by (simp add: Let_def)
    next
      case (Inr r)
      with Some Cons.IH[OF a b] e show ?thesis by (simp add: Let_def)
    qed
  qed
qed

lemma sequence_stop:
  assumes "k < length ts"
      and "\<forall>j<k. succeededAt env (i + j)"
      and "failedAt env (i + k)"
      and "failCallback env (i + k) = None"
  shows "fst (sequence env StopOnFailure n i ts pend log) =
           Fulfilled \<lparr>number = i + k,
                      txs = pend @ concat (map (\<lambda>j. case awaited env j of Some (Inr r) \<Rightarrow> [r] | _ \<Rightarrow> [])
                                             [i..<i + k])\<rparr> \<and>
         sentIndices (snd (sequence env StopOnFailure n i ts pend log)) = sentIndices log @ [i..<Suc (i + k)]"
  using assms
proof (induction ts arbitrary: i k pend log)
  case Nil
  then show ?case by simp
next
  case (Cons t ts)
  show ?case
  proof (cases k)
    case 0
    with Cons.prems show ?thesis
      by (auto simp: failedAt_def Let_def sentIndices_append callbackCalls_none
          split: option.splits sum.splits)
  next
    case (Suc k')
    with Cons.prems have s0: "succeededAt env i" by force
    have a: "k' < length ts" using Cons.prems(1) Suc by simp
    have b: "\<forall>j<k'. succeededAt env (Suc i + j)"
      using Cons.prems(2) Suc by (metis add_Suc add_Suc_right Suc_less_eq)
    have c: "failedAt env (Suc i + k')" "failCallback env (Suc i + k') = None"
      using Cons.prems(3,4) Suc by simp_all
    have e: "[i..<i + k] = i # [Suc i..<Suc i + k']" "[i..<Suc (i + k)] = i # [Suc i..<Suc (Suc i + k')]"
      using Suc upt_shift[of i k'] upt_shift[of i "Suc k'"] by simp_all
    from s0 obtain r where r: "awaited env i = Some (Inr r)"
      by (auto simp: succeededAt_def split: option.splits sum.splits)
    from Cons.IH[OF a b c, where pend = "pend @ [r]" and log = "log @ [SendSigned i t] @ callbackCalls env i"]
      r e Suc
    show ?thesis
      by (simp add: Let_def sentIndices_append callbackCalls_none)
  qed
qed


text \<open>The loops submit the signed transactions in order and ask for no further signature.\<close>

lemma sequence_submitted:
  "\<exists>m. submitted (snd (sequence env ty n i ts pend log)) = submitted log @ take m ts"
proof (induction ts arbitrary: i pend log)
  case Nil
  then show ?case by simp
next
  case (Cons t ts)
  let ?log = "log @ [SendSigned i t] @ callbackCalls env i"
  have base: "submitted ?log = submitted log @ take 1 (t # ts)"
    by (simp add: submitted_append callbackCalls_none)
  have fc: "submitted (?log @ [FailCallback i]) = submitted log @ take 1 (t # ts)"
    by (simp add: submitted_append callbackCalls_none)
  have rec: "\<exists>m. submitted (snd (sequence env ty n (Suc i) ts p l)) = submitted log @ take m (t # ts)"
    if "submitted l = submitted log @ [t]" for p l
  proof -
    from Cons.IH[of "Suc i" p l] obtain m
      where "submitted (snd (sequence env ty n (Suc i) ts p l)) = submitted l @ take m ts" by blast
    with that have "submitted (snd (sequence env ty n (Suc i) ts p l)) = submitted log @ take (Suc m) (t # ts)"
      by simp
    then show ?thesis by blast
  qed
  show ?case
  proof (cases "awaited env i")
    case None
    with base show ?thesis by (auto simp: Let_def simp del: take_Suc_Cons)
  next
    case (Some x)
    show ?thesis
    proof (cases x)
      case (Inr r)
      with Some rec[of ?log "pend @ [r]"] base show ?thesis by (simp add: Let_def)
    next
      case (Inl e)
      show ?thesis
      proof (cases "failCallback env i")
        case (Some e')
        with \<open>awaited env i = Some x\<close> Inl fc show ?thesis
          by (auto simp: Let_def simp del: take_Suc_Cons)
      next
        case None
        show ?thesis
        proof (cases "ty = StopOnFailure")
          case True
          with None \<open>awaited env i = Some x\<close> Inl fc show ?thesis
            by (auto simp: Let_def simp del: take_Suc_Cons)
        next
          case False
          with None \<open>awaited env i = Some x\<close> Inl rec[of "?log @ [FailCallback i]" pend] fc
          show ?thesis by (simp add: Let_def)
        qed
      qed
    qed
  qed
qed

lemma sequence_signRequests:
  "signRequests (snd (sequence env ty n i ts pend log)) = signRequests log"
  by (induction ts arbitrary: i pend log)
     (auto simp: Let_def signRequests_append callbackCalls_none split: option.splits sum.splits)

lemma submitted_sends: "submitted (map (\<lambda>i. SendSigned i (f i)) xs) = map f xs"
  by (induction xs) simp_all

lemma signRequests_sends: "signRequests (map (\<lambda>i. SendSigned i (f i)) xs) = []"
  by (induction xs) simp_all

lemma parallel_log:
  "submitted (snd (parallel_policy env ts log)) = submitted log @ ts \<and>
   signRequests (snd (parallel_policy env ts log)) = signRequests log"
  by (simp add: parallel_policy_def Let_def submitted_append signRequests_append submitted_sends
      signRequests_sends map_nth split: promise.splits)

lemma take_length_take: "take (length (take m xs)) xs = take m xs"
  by (simp add: min_def)

lemma sendTransactions_prepared:
  assumes "prepare env instructionSet signersSet block beforeTransactions afterTransactions
             = (Inr signedTxns, log)"
  shows "signRequests (snd (sendTransactions env instructionSet signersSet ty block
                              beforeTransactions afterTransactions)) = signRequests log"
    and "submitted (snd (sendTransactions env instructionSet signersSet ty block
                              beforeTransactions afterTransactions))
           = take (length (submitted (snd (sendTransactions env instructionSet signersSet ty block
                              beforeTransactions afterTransactions)))) signedTxns"
    and "submitted (snd (sendTransactions env instructionSet signersSet Parallel block
                              beforeTransactions afterTransactions)) = signedTxns"
proof -
  from prepare_log[of env instructionSet signersSet block beforeTransactions afterTransactions] assms
  have sb: "submitted log = []" by simp
  show "signRequests (snd (sendTransactions env instructionSet signersSet ty block
                              beforeTransactions afterTransactions)) = signRequests log"
    using assms by (simp add: sendTransactions_def sequence_signRequests parallel_log)
  show par: "submitted (snd (sendTransactions env instructionSet signersSet Parallel block
                              beforeTransactions afterTransactions)) = signedTxns"
    using assms sb by (simp add: sendTransactions_def parallel_log)
  show "submitted (snd (sendTransactions env instructionSet signersSet ty block
                              beforeTransactions afterTransactions))
           = take (length (submitted (snd (sendTransactions env instructionSet signersSet ty block
                              beforeTransactions afterTransactions)))) signedTxns"
  proof (cases "ty = Parallel")
    case True
    with par show ?thesis by simp
  next
    case False
    obtain m where "submitted (snd (sequence env ty (length signedTxns) 0 signedTxns [] log))
                      = take m signedTxns"
      using sequence_submitted[of env ty "length signedTxns" 0 signedTxns "[]" log] sb by auto
    with False assms show ?thesis
      by (simp add: sendTransactions_def take_length_take del: length_take)
  qed
qed

text \<open>
  How far the loop gets: it submits every transaction when it goes on after each index,
  and the transactions up to index \<open>k\<close> when \<open>k\<close> is the first index after which it
  does not go on.
\<close>

lemma sequence_step_continues:
  assumes "loopContinues env ty i"
  shows "\<exists>p l. sequence env ty n i (t # ts) pend log = sequence env ty n (Suc i) ts p l \<and>
               submitted l = submitted log @ [t]"
proof (cases "awaited env i")
  case None
  with assms show ?thesis by (simp add: loopContinues_def)
next
  case (Some x)
  show ?thesis
  proof (cases x)
    case (Inr r)
    with Some have "sequence env ty n i (t # ts) pend log =
        sequence env ty n (Suc i) ts (pend @ [r]) (log @ [SendSigned i t] @ callbackCalls env i)"
      by (simp add: Let_def)
    moreover have "submitted (log @ [SendSigned i t] @ callbackCalls env i) = submitted log @ [t]"
      by (simp add: submitted_append callbackCalls_none)
    ultimately show ?thesis by blast
  next
    case (Inl e)
    with Some assms have fc: "failCallback env i = None" "ty \<noteq> StopOnFailure"
      by (simp_all add: loopContinues_def)
    with Some Inl have "sequence env ty n i (t # ts) pend log =
        sequence env ty n (Suc i) ts pend
          ((log @ [SendSigned i t] @ callbackCalls env i) @ [FailCallback i])"
      by (simp add: Let_def)
    moreover have "submitted ((log @ [SendSigned i t] @ callbackCalls env i) @ [FailCallback i])
                     = submitted log @ [t]"
      by (simp add: submitted_append callbackCalls_none)
    ultimately show ?thesis by blast
  qed
qed

lemma sequence_step_stops:
  assumes "\<not> loopContinues env ty i"
  shows "submitted (snd (sequence env ty n i (t # ts) pend log)) = submitted log @ [t]"
  using assms
  by (auto simp: loopContinues_def Let_def submitted_append callbackCalls_none
      split: option.splits sum.splits)

lemma sequence_submitted_all:
  assumes "\<forall>j<length ts. loopContinues env ty (i + j)"
  shows "submitted (snd (sequence env ty n i ts pend log)) = submitted log @ ts"
  using assms
proof (induction ts arbitrary: i pend log)
  case Nil
  then show ?case by simp
next
  case (Cons t ts)
  have rest: "\<forall>j<length ts. loopContinues env ty (Suc i + j)"
    using Cons.prems by (metis add_Suc add_Suc_right length_Cons Suc_less_eq)
  from Cons.prems have here: "loopContinues env ty i" by force
  from sequence_step_continues[OF here, of n t ts pend log] obtain p l
    where st: "sequence env ty n i (t # ts) pend log = sequence env ty n (Suc i) ts p l"
      and sl: "submitted l = submitted log @ [t]" by blast
  from Cons.IH[OF rest, of p l] st sl show ?case by simp
qed

lemma sequence_submitted_stop:
  assumes "k < length ts"
      and "\<forall>j<k. loopContinues env ty (i + j)"
      and "\<not> loopContinues env ty (i + k)"
  shows "submitted (snd (sequence env ty n i ts pend log)) = submitted log @ take (Suc k) ts"
  using assms
proof (induction ts arbitrary: i k pend log)
  case Nil
  then show ?case by simp
next
  case (Cons t ts)
  show ?case
  proof (cases k)
    case 0
    with Cons.prems(3) sequence_step_stops[of env ty i n t ts pend log] show ?thesis by simp
  next
    case (Suc k')
    with Cons.prems have here: "loopContinues env ty i" by force
    have a: "k' < length ts" using Cons.prems(1) Suc by simp
    have b: "\<forall>j<k'. loopContinues env ty (Suc i + j)"
      using Cons.prems(2) Suc by (metis add_Suc add_Suc_right Suc_less_eq)
    have c: "\<not> loopContinues env ty (Suc i + k')"
      using Cons.prems(3) Suc by simp
    from sequence_step_continues[OF here, of n t ts pend log] obtain p l
      where st: "sequence env ty n i (t # ts) pend log = sequence env ty n (Suc i) ts p l"
        and sl: "submitted l = submitted log @ [t]" by blast
    from Cons.IH[OF a b c, of p l] st sl Suc show ?thesis by simp
  qed
qed

lemma sendTransactions_sequence_order:
  assumes "prepare env instructionSet signersSet block beforeTransactions afterTransactions
             = (Inr signedTxns, log)"
      and "ty \<noteq> Parallel"
  shows "(\<forall>j<length signedTxns. loopContinues env ty j) \<Longrightarrow>
         submitted (snd (sendTransactions env instructionSet signersSet ty block
                              beforeTransactions afterTransactions)) = signedTxns"
    and "k < length signedTxns \<Longrightarrow> (\<forall>j<k. loopContinues env ty j) \<Longrightarrow> \<not> loopContinues env ty k \<Longrightarrow>
         submitted (snd (sendTransactions env instructionSet signersSet ty block
                              beforeTransactions afterTransactions)) = take (Suc k) signedTxns"
proof -
  from prepare_log[of env instructionSet signersSet block beforeTransactions afterTransactions] assms
  have sb: "submitted log = []" by simp
  show "submitted (snd (sendTransactions env instructionSet signersSet ty block
                              beforeTransactions afterTransactions)) = signedTxns"
    if "\<forall>j<length signedTxns. loopContinues env ty j"
    using that assms sb sequence_submitted_all[of signedTxns env ty 0 "length signedTxns" "[]" log]
    by (simp add: sendTransactions_def)
  show "submitted (snd (sendTransactions env instructionSet signersSet ty block
                              beforeTransactions afterTransactions)) = take (Suc k) signedTxns"
    if "k < length signedTxns" "\<forall>j<k. loopContinues env ty j" "\<not> loopContinues env ty k"
    using that assms sb sequence_submitted_stop[of k signedTxns env ty 0 "length signedTxns" "[]" log]
    by (simp add: sendTransactions_def del: take_Suc_Cons)
qed

text \<open>The example batches, evaluated.\<close>

lemma five_fields:
  "walletPublicKey fiveEnv = Some ''W''" "getLatestBlockhash fiveEnv = Inr blk"
  "signAllTransactions fiveEnv ts = Inr (map walletSign ts)"
  "submit fiveEnv i = (if i = 2 then rejectedEnv else committedEnv)"
  "successCallback fiveEnv i = None" "failCallback fiveEnv i = None"
  by (simp_all add: fiveEnv_def)

lemma five_awaited:
  "awaited fiveEnv i =
     (if i = 2 then Some (Inl (Error ''Transaction failed: insufficient funds''))
      else Some (Inr okResult))"
  by (simp add: awaited_def five_fields rejected_run committed_run okResult_def)

lemma five_callbackCalls:
  "callbackCalls fiveEnv i = (if i = 2 then [] else [SuccessCallback (Txid ''sig'') i])"
  by (simp add: callbackCalls_def five_fields rejected_run committed_run)

lemma five_built:
  "buildTransactions ''W'' ''bh'' fiveSigners 0 fiveGroups = Inr fiveBuilt"
  by (simp add: fiveSigners_def fiveGroups_def fiveBuilt_def)

lemma five_wallet: "filter (hasWalletSigner ''W'') fiveBuilt = fiveBuilt"
   "filter (\<lambda>t. \<not> hasWalletSigner ''W'' t) fiveBuilt = []"
  by (auto simp: fiveBuilt_def hasWalletSigner_def newTransaction_def)

lemma five_prepare:
  "prepare fiveEnv fiveGroups fiveSigners (Some blk) [] [] =
     (Inr (map walletSign fiveBuilt), [SignAllTransactions fiveBuilt])"
  by (simp add: prepare_def five_fields five_built five_wallet blk_def)

lemma five_length: "length fiveBuilt = 5"
  by (simp add: fiveBuilt_def)

lemma five_outcomes:
  "succeededAt fiveEnv i = (i \<noteq> 2)" "failedAt fiveEnv i = (i = 2)"
  by (simp_all add: succeededAt_def failedAt_def five_awaited)

lemma five_continues: "loopContinues fiveEnv ty i = (i \<noteq> 2 \<or> ty \<noteq> StopOnFailure)"
  by (simp add: loopContinues_def five_awaited five_fields)

lemma mixed_built:
  "buildTransactions ''W'' ''bh'' mixedSigners 0 mixedGroups =
     Inr [newTransaction ''W'' ''bh'' [''a''] [], newTransaction ''W'' ''bh'' [''b''] [''K'']]"
  by (simp add: mixedSigners_def mixedGroups_def)

lemma mixed_wallet:
  "filter (hasWalletSigner ''W'')
     [supplied, newTransaction ''W'' ''bh'' [''a''] [], newTransaction ''W'' ''bh'' [''b''] [''K''], presigned]
     = [supplied, newTransaction ''W'' ''bh'' [''a''] [], newTransaction ''W'' ''bh'' [''b''] [''K'']]"
  "filter (\<lambda>t. \<not> hasWalletSigner ''W'' t)
     [supplied, newTransaction ''W'' ''bh'' [''a''] [], newTransaction ''W'' ''bh'' [''b''] [''K''], presigned]
     = [presigned]"
  by (auto simp: hasWalletSigner_def newTransaction_def supplied_def presigned_def)

text \<open>
  C5. If the wallet has no public key, \<^verbatim>\<open>sendTransactions\<close> is rejected with
  \<^verbatim>\<open>Wallet not connected\<close> and has made no call at all: no blockhash was fetched, no
  signature requested, nothing submitted and no callback invoked, whatever the other
  arguments are.
\<close>

theorem wallet_not_connected_rejects_first:
  "walletPublicKey env = None \<Longrightarrow>
   sendTransactions env instructionSet signersSet ty block beforeTransactions afterTransactions
     = (Rejected (Error ''Wallet not connected''), [])"
  by (simp add: sendTransactions_def prepare_def)


theorem wallet_not_connected_example:
  "sendTransactions (fiveEnv\<lparr>walletPublicKey := None\<rparr>) fiveGroups fiveSigners Parallel None [] []
     = (Rejected (Error ''Wallet not connected''), [])"
  using wallet_not_connected_rejects_first[of "fiveEnv\<lparr>walletPublicKey := None\<rparr>" fiveGroups fiveSigners Parallel None "[]" "[]"]
  by simp


text \<open>
  C6. With a wallet connected, a blockhash at hand, the transactions built and a wallet
  that answers the request with each transaction signed (by \<open>sg\<close>) in the order of the
  request: the supplied and the built transactions are split by whether a signature
  entry carries the wallet's key; the wallet is asked exactly once, for the transactions
  that carry it, in their input order. The submission order is that of the list that has
  the other transactions first, in input order, followed by the newly signed ones in
  input order: under every policy the transactions submitted are an initial part of that
  list; under \<open>Parallel\<close> all of it is submitted; under \<open>Sequential\<close> and
  \<open>StopOnFailure\<close> all of it is submitted when the loop goes on after every index, and
  exactly its first \<open>k + 1\<close> transactions when \<open>k\<close> is the first index after which
  the loop does not go on.
\<close>

theorem one_signing_request_and_submission_order:
  assumes "walletPublicKey env = Some w"
      and "(case block of Some b' \<Rightarrow> Inr b' | None \<Rightarrow> getLatestBlockhash env) = Inr b"
      and "buildTransactions w (blockhash b) signersSet 0 instructionSet = Inr built"
      and "signAllTransactions env (filter (hasWalletSigner w) (beforeTransactions @ built @ afterTransactions))
             = Inr (map sg (filter (hasWalletSigner w) (beforeTransactions @ built @ afterTransactions)))"
  shows "signRequests (snd (sendTransactions env instructionSet signersSet ty block
                              beforeTransactions afterTransactions))
           = [filter (hasWalletSigner w) (beforeTransactions @ built @ afterTransactions)] \<and>
         submitted (snd (sendTransactions env instructionSet signersSet ty block
                                   beforeTransactions afterTransactions))
           = take (length (submitted (snd (sendTransactions env instructionSet signersSet ty block
                                   beforeTransactions afterTransactions))))
               (filter (\<lambda>t. \<not> hasWalletSigner w t) (beforeTransactions @ built @ afterTransactions) @
                map sg (filter (hasWalletSigner w) (beforeTransactions @ built @ afterTransactions))) \<and>
         submitted (snd (sendTransactions env instructionSet signersSet Parallel block
                                   beforeTransactions afterTransactions))
           = filter (\<lambda>t. \<not> hasWalletSigner w t) (beforeTransactions @ built @ afterTransactions) @
             map sg (filter (hasWalletSigner w) (beforeTransactions @ built @ afterTransactions)) \<and>
         (ty \<noteq> Parallel \<and>
          (\<forall>j<length (filter (\<lambda>t. \<not> hasWalletSigner w t) (beforeTransactions @ built @ afterTransactions) @
                       map sg (filter (hasWalletSigner w) (beforeTransactions @ built @ afterTransactions))).
              loopContinues env ty j)
          \<longrightarrow> submitted (snd (sendTransactions env instructionSet signersSet ty block
                                   beforeTransactions afterTransactions))
                = filter (\<lambda>t. \<not> hasWalletSigner w t) (beforeTransactions @ built @ afterTransactions) @
                  map sg (filter (hasWalletSigner w) (beforeTransactions @ built @ afterTransactions))) \<and>
         (ty \<noteq> Parallel \<and>
          k < length (filter (\<lambda>t. \<not> hasWalletSigner w t) (beforeTransactions @ built @ afterTransactions) @
                      map sg (filter (hasWalletSigner w) (beforeTransactions @ built @ afterTransactions))) \<and>
          (\<forall>j<k. loopContinues env ty j) \<and> \<not> loopContinues env ty k
          \<longrightarrow> submitted (snd (sendTransactions env instructionSet signersSet ty block
                                   beforeTransactions afterTransactions))
                = take (Suc k)
                    (filter (\<lambda>t. \<not> hasWalletSigner w t) (beforeTransactions @ built @ afterTransactions) @
                     map sg (filter (hasWalletSigner w) (beforeTransactions @ built @ afterTransactions))))"
proof -
  define u where "u = beforeTransactions @ built @ afterTransactions"
  define L where "L = filter (\<lambda>t. \<not> hasWalletSigner w t) u @ map sg (filter (hasWalletSigner w) u)"
  define fetched where "fetched = (case block of Some b' \<Rightarrow> [] | None \<Rightarrow> [GetLatestBlockhash])"
  define S where "S = submitted (snd (sendTransactions env instructionSet signersSet ty block
                                   beforeTransactions afterTransactions))"
  have prep: "prepare env instructionSet signersSet block beforeTransactions afterTransactions
          = (Inr L, fetched @ [SignAllTransactions (filter (hasWalletSigner w) u)])"
    using assms unfolding u_def L_def fetched_def
    by (cases block) (simp_all add: prepare_def Let_def)
  have sr: "signRequests (fetched @ [SignAllTransactions (filter (hasWalletSigner w) u)])
              = [filter (hasWalletSigner w) u]"
    unfolding fetched_def by (cases block) simp_all
  note P = sendTransactions_prepared[OF prep]
  have 1: "signRequests (snd (sendTransactions env instructionSet signersSet ty block
                              beforeTransactions afterTransactions)) = [filter (hasWalletSigner w) u]"
    using P(1)[of ty] sr by simp
  have 2: "S = take (length S) L"
    unfolding S_def by (rule P(2))
  have 3: "submitted (snd (sendTransactions env instructionSet signersSet Parallel block
                                   beforeTransactions afterTransactions)) = L"
    by (rule P(3))
  have 4: "ty \<noteq> Parallel \<and> (\<forall>j<length L. loopContinues env ty j) \<longrightarrow> S = L"
    unfolding S_def using sendTransactions_sequence_order(1)[OF prep] by blast
  have 5: "ty \<noteq> Parallel \<and> k < length L \<and> (\<forall>j<k. loopContinues env ty j) \<and> \<not> loopContinues env ty k
             \<longrightarrow> S = take (Suc k) L"
    unfolding S_def using sendTransactions_sequence_order(2)[OF prep] by blast
  from 1 2 3 4 5 show ?thesis
    unfolding u_def L_def S_def by (intro conjI)
qed

theorem submission_order_example:
  "signRequests (snd (sendTransactions fiveEnv mixedGroups mixedSigners Sequential None [supplied] [presigned]))
     = [[supplied, newTransaction ''W'' ''bh'' [''a''] [], newTransaction ''W'' ''bh'' [''b''] [''K'']]] \<and>
   submitted (snd (sendTransactions fiveEnv mixedGroups mixedSigners Parallel None [supplied] [presigned]))
     = [presigned, walletSign supplied, walletSign (newTransaction ''W'' ''bh'' [''a''] []),
        walletSign (newTransaction ''W'' ''bh'' [''b''] [''K''])] \<and>
   submitted (snd (sendTransactions fiveEnv mixedGroups mixedSigners Sequential None [supplied] [presigned]))
     = [presigned, walletSign supplied, walletSign (newTransaction ''W'' ''bh'' [''a''] []),
        walletSign (newTransaction ''W'' ''bh'' [''b''] [''K''])] \<and>
   submitted (snd (sendTransactions fiveEnv mixedGroups mixedSigners StopOnFailure None [supplied] [presigned]))
     = [presigned, walletSign supplied, walletSign (newTransaction ''W'' ''bh'' [''a''] [])]"
proof -
  have w: "walletPublicKey fiveEnv = Some ''W''" by (simp add: five_fields)
  have b: "(case None of Some b' \<Rightarrow> Inr b' | None \<Rightarrow> getLatestBlockhash fiveEnv) = Inr blk"
    by (simp add: five_fields)
  have bt: "buildTransactions ''W'' (blockhash blk) mixedSigners 0 mixedGroups =
     Inr [newTransaction ''W'' ''bh'' [''a''] [], newTransaction ''W'' ''bh'' [''b''] [''K'']]"
    using mixed_built by (simp add: blk_def)
  have sg: "signAllTransactions fiveEnv
      (filter (hasWalletSigner ''W'')
         ([supplied] @ [newTransaction ''W'' ''bh'' [''a''] [], newTransaction ''W'' ''bh'' [''b''] [''K'']] @ [presigned]))
     = Inr (map walletSign (filter (hasWalletSigner ''W'')
         ([supplied] @ [newTransaction ''W'' ''bh'' [''a''] [], newTransaction ''W'' ''bh'' [''b''] [''K'']] @ [presigned])))"
    by (rule five_fields(3))
  note seq = one_signing_request_and_submission_order[OF w b bt sg, where ty = Sequential and k = 0,
      unfolded append_Cons append_Nil mixed_wallet list.map]
  note stop = one_signing_request_and_submission_order[OF w b bt sg, where ty = StopOnFailure and k = 2,
      unfolded append_Cons append_Nil mixed_wallet list.map]
  from seq have s1: "signRequests (snd (sendTransactions fiveEnv mixedGroups mixedSigners Sequential None [supplied] [presigned]))
     = [[supplied, newTransaction ''W'' ''bh'' [''a''] [], newTransaction ''W'' ''bh'' [''b''] [''K'']]]"
    by blast
  from seq have s2: "submitted (snd (sendTransactions fiveEnv mixedGroups mixedSigners Parallel None [supplied] [presigned]))
     = [presigned, walletSign supplied, walletSign (newTransaction ''W'' ''bh'' [''a''] []),
        walletSign (newTransaction ''W'' ''bh'' [''b''] [''K''])]"
    by blast
  from seq have s3: "submitted (snd (sendTransactions fiveEnv mixedGroups mixedSigners Sequential None [supplied] [presigned]))
     = [presigned, walletSign supplied, walletSign (newTransaction ''W'' ''bh'' [''a''] []),
        walletSign (newTransaction ''W'' ''bh'' [''b''] [''K''])]"
    by (simp add: five_continues)
  from stop have s4: "submitted (snd (sendTransactions fiveEnv mixedGroups mixedSigners StopOnFailure None [supplied] [presigned]))
     = [presigned, walletSign supplied, walletSign (newTransaction ''W'' ''bh'' [''a''] [])]"
    by (simp add: five_continues)
  from s1 s2 s3 s4 show ?thesis by (intro conjI)
qed

text \<open>
  C10. Under \<open>Sequential\<close>, when the preparation succeeds, every awaited promise
  settles, \<^verbatim>\<open>failCallback\<close> returns wherever it is called, and the transaction at
  some index fails: \<^verbatim>\<open>sendTransactions\<close> returns \<^verbatim>\<open>number\<close> equal to the count of
  signed transactions and \<^verbatim>\<open>txs\<close> with the results of exactly the indices that
  succeeded, in order; \<^verbatim>\<open>number\<close> is greater than the length of \<^verbatim>\<open>txs\<close>.
\<close>

theorem sequential_number_exceeds_results:
  assumes "prepare env instructionSet signersSet block beforeTransactions afterTransactions
             = (Inr signedTxns, log)"
      and "\<forall>j<length signedTxns. awaited env j \<noteq> None"
      and "\<forall>j<length signedTxns. failedAt env j \<longrightarrow> failCallback env j = None"
      and "k < length signedTxns" and "failedAt env k"
  shows "fst (sendTransactions env instructionSet signersSet Sequential block
                beforeTransactions afterTransactions)
           = Fulfilled \<lparr>number = length signedTxns, txs = fulfilledResults env (length signedTxns)\<rparr> \<and>
         length (fulfilledResults env (length signedTxns)) < length signedTxns"
  using assms sequence_sequential[of signedTxns env 0 "length signedTxns" "[]" log]
    fulfilledResults_failed[of k "length signedTxns" env]
  by (simp add: sendTransactions_def fulfilledResults_def)


theorem sequential_five_groups:
  "fst (sendTransactions fiveEnv fiveGroups fiveSigners Sequential (Some blk) [] [])
     = Fulfilled \<lparr>number = 5, txs = [okResult, okResult, okResult, okResult]\<rparr> \<and>
   length [okResult, okResult, okResult, okResult] < (5::nat)"
proof -
  have all: "\<forall>j<length (map walletSign fiveBuilt). awaited fiveEnv j \<noteq> None"
    by (simp add: five_awaited)
  have cb: "\<forall>j<length (map walletSign fiveBuilt). failedAt fiveEnv j \<longrightarrow> failCallback fiveEnv j = None"
    by (simp add: five_fields)
  have k: "2 < length (map walletSign fiveBuilt)" by (simp add: five_length)
  have bad: "failedAt fiveEnv 2" by (simp add: five_outcomes)
  have res: "fulfilledResults fiveEnv 5 = [okResult, okResult, okResult, okResult]"
    by (simp add: fulfilledResults_def five_awaited upt_rec[of _ 5] eval_nat_numeral)
  from sequential_number_exceeds_results[OF five_prepare all cb k bad] res show ?thesis
    by (simp add: five_length)
qed


text \<open>
  C2. The claim: under \<open>StopOnFailure\<close>, when the transaction at index \<open>k\<close> fails,
  \<^verbatim>\<open>number\<close> is \<open>k + 1\<close> and \<^verbatim>\<open>txs\<close> holds the outcomes up to and including that
  point; for five groups with index 2 rejected, \<^verbatim>\<open>{number: 3, txs: [3 outcomes]}\<close>. On
  that batch the code returns \<^verbatim>\<open>number\<close> 2 and two results; the indices submitted are
  0, 1 and 2.
\<close>

theorem stop_on_failure_five_groups:
  "fst (sendSignedTransaction (submit fiveEnv 2))
     = Rejected (Error ''Transaction failed: insufficient funds'') \<and>
   fst (sendTransactions fiveEnv fiveGroups fiveSigners StopOnFailure (Some blk) [] [])
     = Fulfilled \<lparr>number = 2, txs = [okResult, okResult]\<rparr> \<and>
   sentIndices (snd (sendTransactions fiveEnv fiveGroups fiveSigners StopOnFailure (Some blk) [] []))
     = [0, 1, 2]"
proof -
  have "sendTransactions fiveEnv fiveGroups fiveSigners StopOnFailure (Some blk) [] [] =
     sequence fiveEnv StopOnFailure 5 0 (map walletSign fiveBuilt) [] [SignAllTransactions fiveBuilt]"
    by (simp add: sendTransactions_def five_prepare five_length)
  then show ?thesis
    by (simp add: fiveBuilt_def five_awaited five_callbackCalls five_fields rejected_run Let_def)
qed



text \<open>
  C2, as amended. Under \<open>StopOnFailure\<close>, when the transactions before index \<open>k\<close>
  succeed, the one at index \<open>k\<close> fails and \<^verbatim>\<open>failCallback\<close> returns:
  \<^verbatim>\<open>sendTransactions\<close> returns \<^verbatim>\<open>number\<close> equal to \<open>k\<close>, the index of the failure
  (line 340), and \<^verbatim>\<open>txs\<close> with the \<open>k\<close> results of the transactions before it; the
  transactions submitted are those of the indices 0 to \<open>k\<close>, and none after.
\<close>

theorem stop_on_failure_returns_failed_index:
  assumes "prepare env instructionSet signersSet block beforeTransactions afterTransactions
             = (Inr signedTxns, log)"
      and "k < length signedTxns"
      and "\<forall>j<k. succeededAt env j"
      and "failedAt env k"
      and "failCallback env k = None"
  shows "fst (sendTransactions env instructionSet signersSet StopOnFailure block
                beforeTransactions afterTransactions)
           = Fulfilled \<lparr>number = k, txs = fulfilledResults env k\<rparr> \<and>
         length (fulfilledResults env k) = k \<and>
         sentIndices (snd (sendTransactions env instructionSet signersSet StopOnFailure block
                beforeTransactions afterTransactions)) = [0..<Suc k]"
proof -
  from prepare_log[of env instructionSet signersSet block beforeTransactions afterTransactions] assms(1)
  have "sentIndices log = []" by simp
  with assms sequence_stop[of k signedTxns env 0 "length signedTxns" "[]" log]
    fulfilledResults_all[of k env]
  show ?thesis
    by (simp add: sendTransactions_def fulfilledResults_def)
qed



theorem stop_on_failure_returns_failed_index_example:
  "fst (sendTransactions fiveEnv fiveGroups fiveSigners StopOnFailure (Some blk) [] [])
     = Fulfilled \<lparr>number = 2, txs = fulfilledResults fiveEnv 2\<rparr> \<and>
   length (fulfilledResults fiveEnv 2) = 2 \<and>
   sentIndices (snd (sendTransactions fiveEnv fiveGroups fiveSigners StopOnFailure (Some blk) [] []))
     = [0..<Suc 2]"
proof -
  have k: "2 < length (map walletSign fiveBuilt)" by (simp add: five_length)
  have ok: "\<forall>j<2. succeededAt fiveEnv j" by (simp add: five_outcomes)
  have bad: "failedAt fiveEnv 2" by (simp add: five_outcomes)
  have cb: "failCallback fiveEnv 2 = None" by (simp add: five_fields)
  from stop_on_failure_returns_failed_index[OF five_prepare k ok bad cb] show ?thesis .
qed


end
